theory Spec2Isabelle
  imports Complex_Main "HOL-Library.Char_ord" "HOL-Library.List_Lexorder"
begin

section \<open>Strings, numbers and paths\<close>

text \<open>
  The Python sources build every file and directory name with f-strings,
  \<^verbatim>\<open>strftime\<close> and \<^verbatim>\<open>os.path.join\<close>. These are modelled on
  \<^typ>\<open>string\<close>; names are assumed to be ASCII, where Python's code-point order and
  the byte order of \<^typ>\<open>char\<close> agree.
\<close>

definition digit_char :: "nat \<Rightarrow> char" where
  "digit_char d = ''0123456789'' ! d"

text \<open>\<^verbatim>\<open>str(n)\<close> for a non-negative integer.\<close>

fun str_nat :: "nat \<Rightarrow> string" where
  "str_nat n =
     (if n < 10 then [digit_char n] else str_nat (n div 10) @ [digit_char (n mod 10)])"

declare str_nat.simps [simp del]

text \<open>
  Zero padding to a minimum width, as the format specifications \<^verbatim>\<open>:06d\<close> and
  \<^verbatim>\<open>:03d\<close> do for a non-negative integer: a longer number is not cut.
\<close>

definition zfill :: "nat \<Rightarrow> string \<Rightarrow> string" where
  "zfill w s = replicate (w - length s) (CHR ''0'') @ s"

definition format_06d :: "nat \<Rightarrow> string" where
  "format_06d n = zfill 6 (str_nat n)"


text \<open>\<^verbatim>\<open>s.endswith(suf)\<close>.\<close>

definition endswith :: "string \<Rightarrow> string \<Rightarrow> bool" where
  "endswith s suf = (length suf \<le> length s \<and> drop (length s - length suf) s = suf)"

text \<open>\<^verbatim>\<open>s.lower()\<close> on ASCII letters.\<close>

definition lower_char :: "char \<Rightarrow> char" where
  "lower_char c =
     (case map_of (zip ''ABCDEFGHIJKLMNOPQRSTUVWXYZ'' ''abcdefghijklmnopqrstuvwxyz'') c of
        Some d \<Rightarrow> d
      | None \<Rightarrow> c)"

definition lower :: "string \<Rightarrow> string" where
  "lower s = map lower_char s"

text \<open>
  \<^verbatim>\<open>os.path.join(a, b)\<close> with two arguments, as \<^verbatim>\<open>posixpath\<close> defines it: an
  absolute second component replaces the first, and no separator is added after an
  empty first component or one that already ends with a separator.
\<close>

definition path_join :: "string \<Rightarrow> string \<Rightarrow> string" where
  "path_join a b =
     (if b \<noteq> [] \<and> hd b = CHR ''/'' then b
      else if a = [] \<or> last a = CHR ''/'' then a @ b
      else a @ ''/'' @ b)"

text \<open>
  The fields of \<^verbatim>\<open>datetime.now()\<close> that \<^verbatim>\<open>strftime("%Y%m%d_%H%M%S")\<close> prints,
  each zero-padded to its width.
\<close>

record datetime =
  year :: nat
  month :: nat
  day :: nat
  hour :: nat
  minute :: nat
  second :: nat

definition strftime_stamp :: "datetime \<Rightarrow> string" where
  "strftime_stamp d =
     zfill 4 (str_nat (year d)) @ zfill 2 (str_nat (month d)) @ zfill 2 (str_nat (day d))
     @ ''_''
     @ zfill 2 (str_nat (hour d)) @ zfill 2 (str_nat (minute d)) @ zfill 2 (str_nat (second d))"

definition valid_datetime :: "datetime \<Rightarrow> bool" where
  "valid_datetime d =
     (1000 \<le> year d \<and> year d \<le> 9999 \<and> 1 \<le> month d \<and> month d \<le> 12
      \<and> 1 \<le> day d \<and> day d \<le> 31 \<and> hour d < 24 \<and> minute d < 60 \<and> second d < 60)"

section \<open>Configuration\<close>

text \<open>
  The configuration dictionary of \<^verbatim>\<open>TimelapseCamera\<close> and the Tk variables of
  \<^verbatim>\<open>TimelapseGUI\<close>, as one record. \<open>preview_window\<close> is read by the command-line
  program only; \<open>use_time_limit\<close> and \<open>recording_time_limit\<close> by the graphical one.
  The interval and the duration are Python numbers that the command-line program
  takes unchecked from its arguments or its configuration file (\<^verbatim>\<open>type=float\<close>, or a
  JSON number): a real number, an infinity or NaN.
\<close>

datatype pyfloat = Num real | PosInf | NegInf | NaN

text \<open>
  \<^verbatim>\<open>time.sleep(x)\<close> raises \<^verbatim>\<open>ValueError\<close> for a negative number and for NaN, and
  \<^verbatim>\<open>OverflowError\<close> for a number of seconds that its signed 64-bit count of
  nanoseconds cannot hold, the infinities among them. The rounding of a float at that
  bound is not modelled, nor is a smaller bound that the sleep call of a platform may
  have.
\<close>

definition sleep_raises :: "pyfloat \<Rightarrow> bool" where
  "sleep_raises x =
     (case x of Num r \<Rightarrow> r < 0 \<or> 2 ^ 63 \<le> r * 10 ^ 9 | PosInf \<Rightarrow> True
      | NegInf \<Rightarrow> True | NaN \<Rightarrow> True)"

text \<open>
  The text of the time-limit combobox of the GUI: a text without the minutes suffix
  (the "no limit" entry), a number of minutes with the suffix, or other text with the
  suffix, which \<^verbatim>\<open>int\<close> refuses.
\<close>

datatype time_limit_text = NoMinutes | Minutes int | BadMinutes

record config =
  interval_seconds :: pyfloat
  duration_minutes :: pyfloat
  output_dir :: string
  image_format :: string
  image_quality :: int
  filename_prefix :: string
  auto_exposure :: bool
  brightness :: int
  contrast :: int
  saturation :: int
  create_video :: bool
  video_format :: string
  cleanup_images :: bool
  preview_window :: bool
  use_time_limit :: bool
  recording_time_limit :: time_limit_text

text \<open>\<^verbatim>\<open>TimelapseCamera.load_default_config\<close>.\<close>

definition load_default_config :: config where
  "load_default_config =
     \<lparr> interval_seconds = Num 5, duration_minutes = Num 60, output_dir = ''./timelapse_output'',
       image_format = ''jpg'', image_quality = 95, filename_prefix = ''timelapse'',
       auto_exposure = True, brightness = 0, contrast = 0, saturation = 0,
       create_video = True, video_format = ''mp4'', cleanup_images = False,
       preview_window = True, use_time_limit = False, recording_time_limit = NoMinutes \<rparr>"

text \<open>The initial Tk variables of \<^verbatim>\<open>TimelapseGUI.__init__\<close>.\<close>

definition gui_default_config :: config where
  "gui_default_config =
     load_default_config \<lparr> cleanup_images := True, preview_window := False \<rparr>"








section \<open>Image encoding parameters and file names\<close>

datatype encode_params = JpegQuality int | PngCompression int | NoParams

text \<open>
  The parameter list handed to \<^verbatim>\<open>cv2.imwrite\<close>, the same in
  \<^verbatim>\<open>TimelapseCamera.capture_frame\<close> and \<^verbatim>\<open>TimelapseGUI._recording_worker\<close>.
  Python's \<^verbatim>\<open>//\<close> on integers is floor division, as \<open>div\<close> on \<^typ>\<open>int\<close>.
\<close>

definition encode_params :: "config \<Rightarrow> encode_params" where
  "encode_params cfg =
     (if lower (image_format cfg) = ''jpg'' then JpegQuality (image_quality cfg)
      else if lower (image_format cfg) = ''png''
        then PngCompression (9 - image_quality cfg div 10)
      else NoParams)"

text \<open>The compression levels the PNG encoder defines.\<close>

definition valid_png_compression :: "int \<Rightarrow> bool" where
  "valid_png_compression c = (0 \<le> c \<and> c \<le> 9)"

definition frame_filename :: "config \<Rightarrow> nat \<Rightarrow> string" where
  "frame_filename cfg frame_number =
     filename_prefix cfg @ ''_'' @ format_06d frame_number @ ''.'' @ image_format cfg"

text \<open>
  \<^verbatim>\<open>create_output_directory\<close>: the directory name, and
  \<^verbatim>\<open>Path(output_dir).mkdir(parents=True, exist_ok=True)\<close> on the set of directories
  that exist: an existing directory is no error.
\<close>

definition session_directory :: "config \<Rightarrow> datetime \<Rightarrow> string" where
  "session_directory cfg clock =
     path_join (output_dir cfg) (filename_prefix cfg @ ''_'' @ strftime_stamp clock)"

definition create_output_directory ::
  "config \<Rightarrow> datetime \<Rightarrow> string set \<Rightarrow> string \<times> string set" where
  "create_output_directory cfg clock dirs =
     (session_directory cfg clock, insert (session_directory cfg clock) dirs)"

section \<open>The environment of a capture session\<close>

text \<open>
  What the camera, the image writer, the preview window, the clock and the user do is
  not decided by the program. One \<open>tick\<close> holds what they do during one pass of the
  capture loop: the reading of \<^verbatim>\<open>datetime.now()\<close> in the loop condition (seconds),
  the outcome of \<^verbatim>\<open>camera.read()\<close> (a frame, the flag \<^verbatim>\<open>False\<close>, or an
  exception), the outcome of \<^verbatim>\<open>cv2.imwrite\<close> (\<^verbatim>\<open>True\<close>, \<^verbatim>\<open>False\<close>, or an
  exception), the outcome of the preview calls (\<^verbatim>\<open>cv2.waitKey(1) & 0xFF\<close>, or an
  exception of \<^verbatim>\<open>cv2.resize\<close>, \<^verbatim>\<open>cv2.imshow\<close> or \<^verbatim>\<open>cv2.waitKey\<close>), and
  whether the signal handler or the stop action of the GUI (or the clean-up of another
  worker of the GUI) clears \<^verbatim>\<open>is_recording\<close> during the pass. The list of ticks a loop is given bounds its passes: a loop that
  would need a further tick has no result.

  Two fields concern the graphical worker only. Its loop calls Tk from the worker
  thread, and a Tk call may raise: \<open>TkRaisesBeforeWrite\<close> when one of the variable
  reads between a successful camera read and \<^verbatim>\<open>cv2.imwrite\<close> raises (file-name
  prefix, image format, quality), \<open>TkRaisesAfterWrite\<close> when \<^verbatim>\<open>log_message\<close> after
  the write or after a failed read, or the read of the interval before the sleep,
  raises. And \<open>restarted\<close> says whether, after a stop request during the pass, the
  start action set \<^verbatim>\<open>is_recording\<close> again before the pass ended:
  \<^verbatim>\<open>TimelapseGUI.start_recording\<close> is guarded by the cleared flag only and does not
  wait for the worker. Of the second worker it starts only this effect on the flag is
  modelled, not its resetting of the shared frame counter. Tk calls outside the loop
  are taken to return.
\<close>

datatype read_result = ReadOk | ReadFail | ReadRaises

datatype write_result = WriteOk | WriteFail | WriteRaises

datatype preview_result = PreviewKey nat | PreviewRaises

datatype tk_result = TkOk | TkRaisesBeforeWrite | TkRaisesAfterWrite

record tick =
  now :: real
  read_res :: read_result
  write_res :: write_result
  preview_res :: preview_result
  stop_requested :: bool
  tk_res :: tk_result
  restarted :: bool

text \<open>
  Clock readings are seconds since \<^verbatim>\<open>datetime.min\<close>, the first second of year 1,
  and lie before the end of year 9999, 3652059 days later, where \<^verbatim>\<open>datetime.max\<close>
  is. \<open>end_time_of\<close> is
  \<^verbatim>\<open>start_time + timedelta(minutes=m)\<close>: \<^verbatim>\<open>timedelta\<close> raises for NaN and the
  infinities, and it or the addition raises \<^verbatim>\<open>OverflowError\<close> when the sum is not a
  \<^verbatim>\<open>datetime\<close> (\<open>None\<close>). The rounding to microseconds is not modelled.
\<close>

definition datetime_max :: real where
  "datetime_max = 3652059 * 86400"

definition end_time_of :: "real \<Rightarrow> pyfloat \<Rightarrow> real option" where
  "end_time_of start m =
     (case m of
        Num x \<Rightarrow>
          if 0 \<le> start + x * 60 \<and> start + x * 60 < datetime_max then Some (start + x * 60)
          else None
      | PosInf \<Rightarrow> None
      | NegInf \<Rightarrow> None
      | NaN \<Rightarrow> None)"

text \<open>The calls a front-end makes on the camera, the image writer (with the path and
  the encoding parameters it is given), the sleep timer and the video assembly, in the
  order it makes them.\<close>

datatype action =
  OpenDevice | SetWidth | SetHeight | SetAutoExposure | SetBrightness | SetContrast
  | SetSaturation | CameraRead | ImWrite string encode_params | Sleep pyfloat | CreateVideo

text \<open>
  The fields \<^verbatim>\<open>is_recording\<close> and \<^verbatim>\<open>frame_count\<close> of the recorder object, with
  two logs: \<open>saved\<close>, the frame number and path of every \<^verbatim>\<open>cv2.imwrite\<close> that
  returned \<^verbatim>\<open>True\<close>, oldest first, and \<open>calls\<close>; \<open>config_json\<close> says whether
  \<^verbatim>\<open>config.json\<close> was written to the session directory. The frame counter starts
  at 0 and is only ever incremented, so it is a natural number.
\<close>

record recorder =
  is_recording :: bool
  frame_count :: nat
  saved :: "(nat \<times> string) list"
  calls :: "action list"
  config_json :: bool

definition initial_recorder :: recorder where
  "initial_recorder =
     \<lparr> is_recording = False, frame_count = 0, saved = [], calls = [], config_json = False \<rparr>"

definition saved_numbers :: "recorder \<Rightarrow> nat list" where
  "saved_numbers s = map fst (saved s)"

text \<open>How a capture loop was left.\<close>

datatype exit_reason = FlagCleared | TimeLimitReached | ExceptionRaised

record session_env =
  camera_opens :: bool
  config_save_fails :: bool
  dir_clock :: datetime
  start_time :: real
  ticks :: "tick list"

section \<open>The command-line front-end: \<^verbatim>\<open>timelapse_camera.py\<close>\<close>

text \<open>
  \<^verbatim>\<open>initialize_camera\<close>: the device is opened; when it is open the resolution is
  set, the exposure only when automatic exposure is off, and brightness, contrast and
  saturation only when they are not 0.
\<close>

definition initialize_camera :: "config \<Rightarrow> bool \<Rightarrow> recorder \<Rightarrow> bool \<times> recorder" where
  "initialize_camera cfg opens s =
     (if \<not> opens then (False, s\<lparr>calls := calls s @ [OpenDevice]\<rparr>)
      else (True, s\<lparr>calls := calls s @ [OpenDevice, SetWidth, SetHeight]
              @ (if \<not> auto_exposure cfg then [SetAutoExposure] else [])
              @ (if brightness cfg \<noteq> 0 then [SetBrightness] else [])
              @ (if contrast cfg \<noteq> 0 then [SetContrast] else [])
              @ (if saturation cfg \<noteq> 0 then [SetSaturation] else [])\<rparr>))"

text \<open>
  \<^verbatim>\<open>save_config\<close>: the write is inside a handler, so a failure is printed and the
  caller goes on.
\<close>

definition save_config :: "bool \<Rightarrow> recorder \<Rightarrow> recorder" where
  "save_config fails s = s\<lparr>config_json := \<not> fails\<rparr>"

text \<open>
  \<^verbatim>\<open>capture_frame\<close>: one \<^verbatim>\<open>try\<close> block around the read, the write and the
  preview; every exception makes it return \<^verbatim>\<open>False\<close>. The ESC key (27) clears
  \<^verbatim>\<open>is_recording\<close>.
\<close>

definition capture_frame ::
  "config \<Rightarrow> tick \<Rightarrow> string \<Rightarrow> nat \<Rightarrow> recorder \<Rightarrow> bool \<times> recorder" where
  "capture_frame cfg t dir frame_number s =
     (let s1 = s\<lparr>calls := calls s @ [CameraRead]\<rparr> in
      case read_res t of
        ReadRaises \<Rightarrow> (False, s1)
      | ReadFail \<Rightarrow> (False, s1)
      | ReadOk \<Rightarrow>
          (let filepath = path_join dir (frame_filename cfg frame_number);
               s2 = s1\<lparr>calls := calls s1 @ [ImWrite filepath (encode_params cfg)]\<rparr> in
           case write_res t of
             WriteRaises \<Rightarrow> (False, s2)
           | WriteFail \<Rightarrow> (False, s2)
           | WriteOk \<Rightarrow>
               (let s3 = s2\<lparr>saved := saved s2 @ [(frame_number, filepath)]\<rparr> in
                if preview_window cfg then
                  (case preview_res t of
                     PreviewRaises \<Rightarrow> (False, s3)
                   | PreviewKey k \<Rightarrow>
                       (True, if k = 27 then s3\<lparr>is_recording := False\<rparr> else s3))
                else (True, s3))))"

text \<open>
  One pass of the loop body of \<^verbatim>\<open>start_recording\<close>: the frame is captured, the
  counter is incremented when \<^verbatim>\<open>capture_frame\<close> returned \<^verbatim>\<open>True\<close>, and the program
  sleeps for the configured interval. The first component says whether
  \<^verbatim>\<open>time.sleep\<close> raised. A stop request during the pass clears the flag; nothing in
  the command-line program sets it again.
\<close>

definition recording_pass ::
  "config \<Rightarrow> tick \<Rightarrow> string \<Rightarrow> recorder \<Rightarrow> bool \<times> recorder" where
  "recording_pass cfg t dir s =
     (let (ok, s1) = capture_frame cfg t dir (frame_count s) s;
          s2 = (if ok then s1\<lparr>frame_count := frame_count s1 + 1\<rparr> else s1);
          s3 = s2\<lparr>calls := calls s2 @ [Sleep (interval_seconds cfg)]\<rparr>;
          s4 = (if stop_requested t then s3\<lparr>is_recording := False\<rparr> else s3)
      in (sleep_raises (interval_seconds cfg), s4))"

text \<open>
  \<^verbatim>\<open>while self.is_recording and datetime.now() < end_time\<close>. The clock is read only
  when the flag is set.
\<close>

fun recording_loop ::
  "config \<Rightarrow> string \<Rightarrow> real \<Rightarrow> tick list \<Rightarrow> recorder \<Rightarrow> (exit_reason \<times> recorder) option" where
  "recording_loop cfg dir end_time [] s =
     (if is_recording s then None else Some (FlagCleared, s))"
| "recording_loop cfg dir end_time (t # ts) s =
     (if \<not> is_recording s then Some (FlagCleared, s)
      else if \<not> now t < end_time then Some (TimeLimitReached, s)
      else (case recording_pass cfg t dir s of
              (True, s') \<Rightarrow> Some (ExceptionRaised, s')
            | (False, s') \<Rightarrow> recording_loop cfg dir end_time ts s'))"

text \<open>
  What \<^verbatim>\<open>start_recording\<close> does: it returns \<^verbatim>\<open>False\<close>, returns \<^verbatim>\<open>True\<close>, or an
  exception leaves it.
\<close>

datatype outcome = ReturnedFalse | ReturnedTrue | Raised

text \<open>
  \<^verbatim>\<open>start_recording\<close>. The estimate \<^verbatim>\<open>total_seconds // interval_seconds\<close> is
  computed before the \<^verbatim>\<open>try\<close> statement and raises \<^verbatim>\<open>ZeroDivisionError\<close> for an
  interval of 0. The \<^verbatim>\<open>try\<close> statement handles \<^verbatim>\<open>KeyboardInterrupt\<close> only, so
  an exception of the end time or of \<^verbatim>\<open>time.sleep\<close> leaves the function after
  \<^verbatim>\<open>cleanup\<close> has cleared the flag. The video is assembled after the loop, when the
  configuration asks for it and a frame was counted.
\<close>

definition start_recording :: "config \<Rightarrow> session_env \<Rightarrow> (outcome \<times> recorder) option" where
  "start_recording cfg env =
     (case initialize_camera cfg (camera_opens env) initial_recorder of
        (False, s0) \<Rightarrow> Some (ReturnedFalse, s0)
      | (True, s0) \<Rightarrow>
          (let dir = session_directory cfg (dir_clock env);
               s1 = (save_config (config_save_fails env) s0)
                      \<lparr>is_recording := True, frame_count := 0\<rparr> in
           if interval_seconds cfg = Num 0 then Some (Raised, s1)
           else
             (case end_time_of (start_time env) (duration_minutes cfg) of
                None \<Rightarrow> Some (Raised, s1\<lparr>is_recording := False\<rparr>)
              | Some end_time \<Rightarrow>
                  (case recording_loop cfg dir end_time (ticks env) s1 of
                     None \<Rightarrow> None
                   | Some (ExceptionRaised, s2) \<Rightarrow> Some (Raised, s2\<lparr>is_recording := False\<rparr>)
                   | Some (r, s2) \<Rightarrow>
                       Some (ReturnedTrue,
                         (if create_video cfg \<and> 0 < frame_count s2
                          then s2\<lparr>calls := calls s2 @ [CreateVideo]\<rparr> else s2)
                         \<lparr>is_recording := False\<rparr>)))))"


section \<open>The graphical front-end: \<^verbatim>\<open>timelapse_gui.py\<close>\<close>

text \<open>
  The body of the loop of \<^verbatim>\<open>_recording_worker\<close>, up to the sleep. Nothing in the
  loop handles an exception: the first component is \<open>True\<close> when the read, a Tk call
  or the write raised. The counter is incremented right after a write that returned
  \<^verbatim>\<open>True\<close>, before the message is logged.
\<close>

definition gui_capture :: "config \<Rightarrow> tick \<Rightarrow> string \<Rightarrow> recorder \<Rightarrow> bool \<times> recorder" where
  "gui_capture cfg t dir s =
     (let s1 = s\<lparr>calls := calls s @ [CameraRead]\<rparr> in
      case read_res t of
        ReadRaises \<Rightarrow> (True, s1)
      | ReadFail \<Rightarrow> (tk_res t = TkRaisesAfterWrite, s1)
      | ReadOk \<Rightarrow>
          if tk_res t = TkRaisesBeforeWrite then (True, s1)
          else
            (let filepath = path_join dir (frame_filename cfg (frame_count s));
                 s2 = s1\<lparr>calls := calls s1 @ [ImWrite filepath (encode_params cfg)]\<rparr> in
             case write_res t of
               WriteRaises \<Rightarrow> (True, s2)
             | WriteFail \<Rightarrow> (tk_res t = TkRaisesAfterWrite, s2)
             | WriteOk \<Rightarrow>
                 (tk_res t = TkRaisesAfterWrite,
                  s2\<lparr>saved := saved s2 @ [(frame_count s, filepath)],
                     frame_count := frame_count s2 + 1\<rparr>)))"

text \<open>
  The flag after a pass of the graphical worker: the stop action clears it
  (\<^verbatim>\<open>stop_recording\<close>), and the start action, possible once it is cleared, sets it
  again (\<^verbatim>\<open>start_recording\<close>).
\<close>

definition gui_flag :: "tick \<Rightarrow> recorder \<Rightarrow> recorder" where
  "gui_flag t s = (if stop_requested t then s\<lparr>is_recording := restarted t\<rparr> else s)"

text \<open>
  One pass of the loop of \<^verbatim>\<open>_recording_worker\<close>: the body above, and the sleep for
  the configured interval, when no exception has left the loop before it.
\<close>

definition gui_recording_pass ::
  "config \<Rightarrow> tick \<Rightarrow> string \<Rightarrow> recorder \<Rightarrow> bool \<times> recorder" where
  "gui_recording_pass cfg t dir s =
     (case gui_capture cfg t dir s of
        (True, s1) \<Rightarrow> (True, gui_flag t s1)
      | (False, s1) \<Rightarrow>
          (let s2 = s1\<lparr>calls := calls s1 @ [Sleep (interval_seconds cfg)]\<rparr>
           in (sleep_raises (interval_seconds cfg), gui_flag t s2)))"

text \<open>
  \<^verbatim>\<open>while self.is_recording and (end_time is None or datetime.now() < end_time)\<close>.
  The condition reads the flag as the last pass and the user's actions during it have
  left it.
\<close>

fun gui_recording_loop ::
  "config \<Rightarrow> string \<Rightarrow> real option \<Rightarrow> tick list \<Rightarrow> recorder
     \<Rightarrow> (exit_reason \<times> recorder) option" where
  "gui_recording_loop cfg dir end_time [] s =
     (if is_recording s then None else Some (FlagCleared, s))"
| "gui_recording_loop cfg dir end_time (t # ts) s =
     (if \<not> is_recording s then Some (FlagCleared, s)
      else if \<not> (case end_time of None \<Rightarrow> True | Some e \<Rightarrow> now t < e)
        then Some (TimeLimitReached, s)
      else (case gui_recording_pass cfg t dir s of
              (True, s') \<Rightarrow> Some (ExceptionRaised, s')
            | (False, s') \<Rightarrow> gui_recording_loop cfg dir end_time ts s'))"

text \<open>
  The camera set-up of \<^verbatim>\<open>_recording_worker\<close>: brightness, contrast and saturation
  are always set.
\<close>

definition gui_setup_camera :: "config \<Rightarrow> recorder \<Rightarrow> recorder" where
  "gui_setup_camera cfg s =
     s\<lparr>calls := calls s @ [OpenDevice, SetWidth, SetHeight]
          @ (if \<not> auto_exposure cfg then [SetAutoExposure] else [])
          @ [SetBrightness, SetContrast, SetSaturation]\<rparr>"

text \<open>
  \<^verbatim>\<open>int(total_seconds // interval_seconds)\<close>, the estimate of the graphical worker
  for a limit of \<open>m\<close> minutes: the division raises \<^verbatim>\<open>ZeroDivisionError\<close> for an
  interval of 0, and \<^verbatim>\<open>int\<close> raises for NaN (the quotient by NaN) and for an
  infinity (the quotient when it is beyond the largest float; the rounding there is
  not modelled). The quotient by an infinite interval is 0 or -1.
\<close>

definition estimate_raises :: "int \<Rightarrow> pyfloat \<Rightarrow> bool" where
  "estimate_raises m x =
     (case x of
        Num r \<Rightarrow> r = 0 \<or> 2 ^ 1024 * \<bar>r\<bar> \<le> \<bar>real_of_int (m * 60)\<bar>
      | PosInf \<Rightarrow> False
      | NegInf \<Rightarrow> False
      | NaN \<Rightarrow> True)"

text \<open>
  The end time of \<^verbatim>\<open>_recording_worker\<close>: there is one when the time limit is in use
  and the text of the combobox has the minutes suffix. Then \<^verbatim>\<open>int\<close> of the text, the
  end time and the estimate may raise (\<open>Inl ()\<close>).
\<close>

definition gui_end_time :: "config \<Rightarrow> real \<Rightarrow> unit + real option" where
  "gui_end_time cfg start =
     (if use_time_limit cfg then
        (case recording_time_limit cfg of
           NoMinutes \<Rightarrow> Inr None
         | BadMinutes \<Rightarrow> Inl ()
         | Minutes m \<Rightarrow>
             (case end_time_of start (Num (real_of_int m)) of
                None \<Rightarrow> Inl ()
              | Some e \<Rightarrow>
                  if estimate_raises m (interval_seconds cfg) then Inl () else Inr (Some e)))
      else Inr None)"

text \<open>
  \<^verbatim>\<open>_recording_worker\<close>: one \<^verbatim>\<open>try\<close> statement around everything, whose handler
  logs the exception; the \<^verbatim>\<open>finally\<close> clause clears the flag. The first component
  of the result says whether the handler ran. The configuration is written to
  \<^verbatim>\<open>config.json\<close> with no handler of its own.
\<close>

definition recording_worker :: "config \<Rightarrow> session_env \<Rightarrow> (bool \<times> recorder) option" where
  "recording_worker cfg env =
     (if \<not> camera_opens env
      then Some (False, initial_recorder\<lparr>calls := [OpenDevice]\<rparr>)
      else
        (let s0 = gui_setup_camera cfg initial_recorder;
             dir = session_directory cfg (dir_clock env) in
         if config_save_fails env then Some (True, s0)
         else
           (let s1 = s0\<lparr>config_json := True, is_recording := True, frame_count := 0\<rparr> in
            case gui_end_time cfg (start_time env) of
              Inl u \<Rightarrow> Some (True, s1\<lparr>is_recording := False\<rparr>)
            | Inr end_time \<Rightarrow>
                (case gui_recording_loop cfg dir end_time (ticks env) s1 of
                   None \<Rightarrow> None
                 | Some (ExceptionRaised, s2) \<Rightarrow> Some (True, s2\<lparr>is_recording := False\<rparr>)
                 | Some (r, s2) \<Rightarrow>
                     Some (False,
                       (if create_video cfg \<and> 0 < frame_count s2
                        then s2\<lparr>calls := calls s2 @ [CreateVideo]\<rparr> else s2)
                       \<lparr>is_recording := False\<rparr>)))))"

section \<open>The smoke test: \<^verbatim>\<open>test_timelapse.py\<close>\<close>



section \<open>Video assembly\<close>

text \<open>
  \<^verbatim>\<open>create_video\<close> of the command-line program and \<^verbatim>\<open>_create_video\<close> of the
  graphical one differ in the container they choose for a video format that is
  neither \<^verbatim>\<open>mp4\<close> nor \<^verbatim>\<open>avi\<close>.
\<close>

datatype frontend = CommandLine | Graphical

definition video_filename :: "frontend \<Rightarrow> config \<Rightarrow> string" where
  "video_filename fe cfg =
     (if lower (video_format cfg) = ''mp4'' then filename_prefix cfg @ ''_timelapse.mp4''
      else if fe = Graphical \<or> lower (video_format cfg) = ''avi''
        then filename_prefix cfg @ ''_timelapse.avi''
      else filename_prefix cfg @ ''_timelapse.mp4'')"

text \<open>
  What the library and the file system do during the assembly, by path:
  whether \<^verbatim>\<open>cv2.imread\<close> returns an image (it returns \<^verbatim>\<open>None\<close> otherwise),
  whether reading the image and handing it to \<^verbatim>\<open>video_writer.write\<close> raises, and
  whether \<^verbatim>\<open>os.remove\<close> raises.
\<close>

record video_env =
  imread_ok :: "string \<Rightarrow> bool"
  write_raises :: "string \<Rightarrow> bool"
  remove_raises :: "string \<Rightarrow> bool"

datatype video_result = NoImages | VideoCreated | VideoFailed

text \<open>
  The observable result of an assembly: how it ended (\<open>VideoFailed\<close> when the
  exception handler ran), the image files handed to the writer, in order, the paths
  video writers were opened on, and the names in the directory afterwards.
\<close>

record video_run =
  result :: video_result
  written :: "string list"
  writers :: "string list"
  directory :: "string list"

text \<open>The loop over \<^verbatim>\<open>image_files\<close>: the first exception ends it.\<close>

fun write_frames :: "video_env \<Rightarrow> string \<Rightarrow> string list \<Rightarrow> string list \<times> bool" where
  "write_frames env dir [] = ([], False)"
| "write_frames env dir (f # fs) =
     (if write_raises env (path_join dir f) then ([], True)
      else (case write_frames env dir fs of (w, raised) \<Rightarrow> (f # w, raised)))"

text \<open>
  The clean-up loop: \<^verbatim>\<open>os.remove\<close> raises for a name that is not in the directory
  any more, and the first exception ends the loop.
\<close>

fun remove_files ::
  "video_env \<Rightarrow> string \<Rightarrow> string list \<Rightarrow> string list \<Rightarrow> string list \<times> bool" where
  "remove_files env dir [] names = (names, False)"
| "remove_files env dir (f # fs) names =
     (if remove_raises env (path_join dir f) \<or> f \<notin> set names then (names, True)
      else remove_files env dir fs (removeAll f names))"

text \<open>\<^verbatim>\<open>sorted([f for f in os.listdir(output_dir) if f.endswith("." + image_format)])\<close>.\<close>

definition image_files :: "config \<Rightarrow> string list \<Rightarrow> string list" where
  "image_files cfg names = sort (filter (\<lambda>f. endswith f (''.'' @ image_format cfg)) names)"

text \<open>
  The method \<^verbatim>\<open>create_video\<close> (\<^verbatim>\<open>_create_video\<close> in the graphical program; the
  configuration has a field of the same name), on the names \<^verbatim>\<open>os.listdir\<close>
  returns for the directory. Opening the
  video writer creates the video file in the directory. The size of the video is read
  from the first image: when \<^verbatim>\<open>cv2.imread\<close> returns \<^verbatim>\<open>None\<close> for it, reading its
  shape raises before a writer is opened.
\<close>

definition create_video_method ::
  "frontend \<Rightarrow> config \<Rightarrow> video_env \<Rightarrow> string \<Rightarrow> string list \<Rightarrow> video_run" where
  "create_video_method fe cfg env dir names =
     (let files = image_files cfg names in
      if files = [] then
        \<lparr> result = NoImages, written = [], writers = [], directory = names \<rparr>
      else if \<not> imread_ok env (path_join dir (hd files)) then
        \<lparr> result = VideoFailed, written = [], writers = [], directory = names \<rparr>
      else
        (let video = video_filename fe cfg;
             names1 = (if video \<in> set names then names else names @ [video]) in
         case write_frames env dir files of
           (w, True) \<Rightarrow>
             \<lparr> result = VideoFailed, written = w, writers = [path_join dir video],
               directory = names1 \<rparr>
         | (w, False) \<Rightarrow>
             if cleanup_images cfg then
               (case remove_files env dir files names1 of
                  (names2, raised) \<Rightarrow>
                    \<lparr> result = (if raised then VideoFailed else VideoCreated), written = w,
                      writers = [path_join dir video], directory = names2 \<rparr>)
             else
               \<lparr> result = VideoCreated, written = w, writers = [path_join dir video],
                 directory = names1 \<rparr>))"

section \<open>Concrete sessions\<close>

text \<open>
  Environments the theorems below are evaluated in. In \<open>tick_ok\<close> the camera gives a
  frame, the image is written, the preview draws, no key is pressed (255), no Tk call
  raises and nobody asks to stop.
\<close>

definition tick_ok :: tick where
  "tick_ok = \<lparr> now = 10, read_res = ReadOk, write_res = WriteOk,
               preview_res = PreviewKey 255, stop_requested = False, tk_res = TkOk,
               restarted = False \<rparr>"

definition noon :: datetime where
  "noon = \<lparr> year = 2025, month = 1, day = 20, hour = 12, minute = 0, second = 0 \<rparr>"

text \<open>
  A machine without a display: the image of the first pass is written, and then
  \<^verbatim>\<open>cv2.imshow\<close> raises. The preview works in the second pass, and the third
  reading of the clock is past the end time (60 minutes after the start at 0).
\<close>

definition headless_env :: session_env where
  "headless_env =
     \<lparr> camera_opens = True, config_save_fails = False, dir_clock = noon, start_time = 0,
       ticks = [tick_ok\<lparr>preview_res := PreviewRaises\<rparr>, tick_ok, tick_ok\<lparr>now := 3600\<rparr>] \<rparr>"




definition late_ticks :: "tick list" where
  "late_ticks = [tick_ok, tick_ok\<lparr>now := 3600\<rparr>]"


text \<open>
  Sessions for the video assembly: a negative interval, an interval of
  \<open>10\<^sup>1\<^sup>0\<close> seconds, which \<^verbatim>\<open>time.sleep\<close> refuses, two passes with nothing going
  wrong, a camera read that raises in the second pass, a session the time limit ends,
  a session of four passes in which the user stops and starts again during the first
  and stops during the fourth, and a graphical configuration with a time limit of 60
  minutes.
\<close>

definition negative_interval_config :: config where
  "negative_interval_config = load_default_config\<lparr>interval_seconds := Num (- 1)\<rparr>"


definition two_ticks_env :: session_env where
  "two_ticks_env =
     \<lparr> camera_opens = True, config_save_fails = False, dir_clock = noon, start_time = 0,
       ticks = [tick_ok, tick_ok] \<rparr>"

definition read_raises_env :: session_env where
  "read_raises_env = two_ticks_env\<lparr>ticks := [tick_ok, tick_ok\<lparr>read_res := ReadRaises\<rparr>]\<rparr>"

definition late_env :: session_env where
  "late_env = two_ticks_env\<lparr>ticks := late_ticks\<rparr>"


definition timed_gui_config :: config where
  "timed_gui_config = gui_default_config\<lparr>use_time_limit := True, recording_time_limit := Minutes 60\<rparr>"






definition read_raises_tick :: tick where
  "read_raises_tick = tick_ok\<lparr>read_res := ReadRaises\<rparr>"


section \<open>The capture algorithm as a call log\<close>

text \<open>
  The algorithm in the words of the specification: the device is opened, its
  properties (resolution, exposure, brightness, contrast, saturation) are set, then
  passes of read, write and sleep for the configured interval follow, and the video
  assembly may end the log. \<open>strip_prefix\<close> takes an expected beginning off a log.
\<close>

fun strip_prefix :: "action list \<Rightarrow> action list \<Rightarrow> action list option" where
  "strip_prefix [] tr = Some tr"
| "strip_prefix (p # ps) [] = None"
| "strip_prefix (p # ps) (a # tr) = (if p = a then strip_prefix ps tr else None)"

definition is_image_write :: "action \<Rightarrow> bool" where
  "is_image_write a = (case a of ImWrite p q \<Rightarrow> True | _ \<Rightarrow> False)"

fun spec_passes :: "config \<Rightarrow> action list \<Rightarrow> bool" where
  "spec_passes cfg tr =
     (if tr = [] \<or> tr = [CreateVideo] then True
      else if 3 \<le> length tr \<and> tr ! 0 = CameraRead \<and> is_image_write (tr ! 1)
              \<and> tr ! 2 = Sleep (interval_seconds cfg)
        then spec_passes cfg (drop 3 tr)
      else False)"

declare spec_passes.simps [simp del]

definition spec_algorithm :: "config \<Rightarrow> action list \<Rightarrow> bool" where
  "spec_algorithm cfg tr =
     (case strip_prefix [OpenDevice, SetWidth, SetHeight, SetAutoExposure, SetBrightness,
                         SetContrast, SetSaturation] tr of
        None \<Rightarrow> False
      | Some rest \<Rightarrow> spec_passes cfg rest)"












definition adjusted_config :: config where
  "adjusted_config =
     load_default_config\<lparr>auto_exposure := False, brightness := 10, contrast := 5,
       saturation := - 5\<rparr>"

text \<open>
  A session directory with three images and the saved configuration, in the order a
  listing may give them; a library that reads and writes every file, and one that
  raises when the second image is written to the video; and the default configuration
  with the clean-up switched on.
\<close>

definition session_names :: "string list" where
  "session_names =
     [''timelapse_000001.jpg'', ''config.json'', ''timelapse_000002.jpg'',
      ''timelapse_000000.jpg'']"

definition good_video_env :: video_env where
  "good_video_env =
     \<lparr> imread_ok = (\<lambda>p. True), write_raises = (\<lambda>p. False), remove_raises = (\<lambda>p. False) \<rparr>"

definition bad_frame_env :: video_env where
  "bad_frame_env = good_video_env\<lparr>write_raises := (\<lambda>p. p = ''out/timelapse_000001.jpg'')\<rparr>"

definition cleanup_config :: config where
  "cleanup_config = load_default_config\<lparr>cleanup_images := True\<rparr>"

text \<open>The image format \<^verbatim>\<open>png\<close> with the highest quality of the documented range.\<close>

definition png_quality_100_config :: config where
  "png_quality_100_config = load_default_config\<lparr>image_format := ''png'', image_quality := 100\<rparr>"

section \<open>Facts about names and numbers\<close>

lemma lower_jpg: "lower ''jpg'' = ''jpg''"
  by (simp add: lower_def lower_char_def)

lemma lower_png: "lower ''png'' = ''png''"
  by (simp add: lower_def lower_char_def)

lemma lower_mp4: "lower ''mp4'' = ''mp4''"
  by (simp add: lower_def lower_char_def)

text \<open>Below quality 100 the PNG compression level is one the encoder defines.\<close>

lemma png_compression_below_100:
  assumes "lower (image_format cfg) = ''png''"
    and "1 \<le> image_quality cfg" and "image_quality cfg \<le> 99"
  shows "\<exists>c. encode_params cfg = PngCompression c \<and> valid_png_compression c"
  using assms by (simp add: encode_params_def valid_png_compression_def) presburger

section \<open>C9: the PNG compression level\<close>

text \<open>
  C9 says that for every image quality from 1 to 100 and the image format \<^verbatim>\<open>png\<close>
  the compression level \<^verbatim>\<open>9 - image_quality // 10\<close> handed to the image writer lies
  between 0 and 9. At quality 100, the upper end of the documented range, the level
  is -1, which is not a level of the encoder, and both front-ends hand it to the
  image writer with the first frame of a session.
\<close>

theorem png_compression_quality_100:
  "encode_params png_quality_100_config = PngCompression (- 1)
   \<and> \<not> valid_png_compression (- 1)
   \<and> map_option (\<lambda>(r, s). filter is_image_write (calls s))
       (start_recording png_quality_100_config late_env)
     = Some [ImWrite ''./timelapse_output/timelapse_20250120_120000/timelapse_000000.png''
               (PngCompression (- 1))]
   \<and> map_option (\<lambda>(h, s). filter is_image_write (calls s))
       (recording_worker
          (png_quality_100_config\<lparr>use_time_limit := True, recording_time_limit := Minutes 60\<rparr>)
          late_env)
     = Some [ImWrite ''./timelapse_output/timelapse_20250120_120000/timelapse_000000.png''
               (PngCompression (- 1))]"
  by code_simp

section \<open>One pass of a capture loop\<close>

text \<open>What one pass does to each field of the recorder, for both loops.\<close>

lemma capture_frame_calls:
  "calls (snd (capture_frame cfg t dir n s)) =
     calls s @ CameraRead #
       (if read_res t = ReadOk then [ImWrite (path_join dir (frame_filename cfg n)) (encode_params cfg)] else [])"
  by (simp add: capture_frame_def Let_def split: read_result.split write_result.split
      preview_result.split)

lemma capture_frame_saved:
  "saved (snd (capture_frame cfg t dir n s)) =
     saved s @ (if read_res t = ReadOk \<and> write_res t = WriteOk
                then [(n, path_join dir (frame_filename cfg n))] else [])"
  by (simp add: capture_frame_def Let_def split: read_result.split write_result.split
      preview_result.split)

lemma capture_frame_count:
  "frame_count (snd (capture_frame cfg t dir n s)) = frame_count s"
  by (simp add: capture_frame_def Let_def split: read_result.split write_result.split
      preview_result.split)

lemma capture_frame_config_json:
  "config_json (snd (capture_frame cfg t dir n s)) = config_json s"
  by (simp add: capture_frame_def Let_def split: read_result.split write_result.split
      preview_result.split)

lemma capture_frame_ok:
  "fst (capture_frame cfg t dir n s) =
     (read_res t = ReadOk \<and> write_res t = WriteOk
      \<and> (preview_window cfg \<longrightarrow> preview_res t \<noteq> PreviewRaises))"
  by (simp add: capture_frame_def Let_def split: read_result.split write_result.split
      preview_result.split)


lemma recording_pass_raises: "fst (recording_pass cfg t dir s) = (sleep_raises (interval_seconds cfg))"
  by (cases "capture_frame cfg t dir (frame_count s) s") (auto simp add: recording_pass_def Let_def)

lemma recording_pass_calls:
  "calls (snd (recording_pass cfg t dir s)) =
     calls s @ CameraRead #
       (if read_res t = ReadOk then [ImWrite (path_join dir (frame_filename cfg (frame_count s)))
                                     (encode_params cfg)]
        else []) @ [Sleep (interval_seconds cfg)]"
  using capture_frame_calls [of cfg t dir "frame_count s" s]
  by (cases "capture_frame cfg t dir (frame_count s) s") (auto simp add: recording_pass_def Let_def)

lemma recording_pass_saved:
  "saved (snd (recording_pass cfg t dir s)) =
     saved s @ (if read_res t = ReadOk \<and> write_res t = WriteOk
                then [(frame_count s, path_join dir (frame_filename cfg (frame_count s)))] else [])"
  using capture_frame_saved [of cfg t dir "frame_count s" s]
  by (cases "capture_frame cfg t dir (frame_count s) s") (auto simp add: recording_pass_def Let_def)

lemma recording_pass_count:
  "frame_count (snd (recording_pass cfg t dir s)) =
     (if read_res t = ReadOk \<and> write_res t = WriteOk
         \<and> (preview_window cfg \<longrightarrow> preview_res t \<noteq> PreviewRaises)
      then frame_count s + 1 else frame_count s)"
  using capture_frame_count [of cfg t dir "frame_count s" s]
    capture_frame_ok [of cfg t dir "frame_count s" s]
  by (cases "capture_frame cfg t dir (frame_count s) s") (auto simp add: recording_pass_def Let_def)


lemma recording_pass_config_json:
  "config_json (snd (recording_pass cfg t dir s)) = config_json s"
  using capture_frame_config_json [of cfg t dir "frame_count s" s]
  by (cases "capture_frame cfg t dir (frame_count s) s") (auto simp add: recording_pass_def Let_def)

lemma recording_loop_step:
  "is_recording s \<Longrightarrow> now t < e \<Longrightarrow>
   recording_loop cfg dir e (t # ts) s =
     (if sleep_raises (interval_seconds cfg) then Some (ExceptionRaised, snd (recording_pass cfg t dir s))
      else recording_loop cfg dir e ts (snd (recording_pass cfg t dir s)))"
  using recording_pass_raises [of cfg t dir s]
  by (cases "recording_pass cfg t dir s") (auto split: bool.split)



lemma gui_capture_calls:
  "calls (snd (gui_capture cfg t dir s)) =
     calls s @ CameraRead #
       (if read_res t = ReadOk \<and> tk_res t \<noteq> TkRaisesBeforeWrite
        then [ImWrite (path_join dir (frame_filename cfg (frame_count s))) (encode_params cfg)]
        else [])"
  by (simp add: gui_capture_def Let_def split: read_result.split write_result.split)

lemma gui_capture_saved:
  "saved (snd (gui_capture cfg t dir s)) =
     saved s @ (if read_res t = ReadOk \<and> tk_res t \<noteq> TkRaisesBeforeWrite \<and> write_res t = WriteOk
                then [(frame_count s, path_join dir (frame_filename cfg (frame_count s)))] else [])"
  by (simp add: gui_capture_def Let_def split: read_result.split write_result.split)

lemma gui_capture_count:
  "frame_count (snd (gui_capture cfg t dir s)) =
     (if read_res t = ReadOk \<and> tk_res t \<noteq> TkRaisesBeforeWrite \<and> write_res t = WriteOk
      then frame_count s + 1 else frame_count s)"
  by (simp add: gui_capture_def Let_def split: read_result.split write_result.split)


lemma gui_capture_config_json:
  "config_json (snd (gui_capture cfg t dir s)) = config_json s"
  by (simp add: gui_capture_def Let_def split: read_result.split write_result.split)


lemma gui_pass_calls:
  "calls (snd (gui_recording_pass cfg t dir s)) =
     calls (snd (gui_capture cfg t dir s))
     @ (if fst (gui_capture cfg t dir s) then [] else [Sleep (interval_seconds cfg)])"
  by (cases "gui_capture cfg t dir s")
    (auto simp add: gui_recording_pass_def gui_flag_def Let_def split: bool.split)

lemma gui_pass_saved:
  "saved (snd (gui_recording_pass cfg t dir s)) =
     saved s @ (if read_res t = ReadOk \<and> tk_res t \<noteq> TkRaisesBeforeWrite \<and> write_res t = WriteOk
                then [(frame_count s, path_join dir (frame_filename cfg (frame_count s)))] else [])"
  using gui_capture_saved [of cfg t dir s]
  by (cases "gui_capture cfg t dir s")
    (auto simp add: gui_recording_pass_def gui_flag_def Let_def split: bool.split)

lemma gui_pass_count:
  "frame_count (snd (gui_recording_pass cfg t dir s)) =
     (if read_res t = ReadOk \<and> tk_res t \<noteq> TkRaisesBeforeWrite \<and> write_res t = WriteOk
      then frame_count s + 1 else frame_count s)"
  using gui_capture_count [of cfg t dir s]
  by (cases "gui_capture cfg t dir s")
    (auto simp add: gui_recording_pass_def gui_flag_def Let_def split: bool.split)


lemma gui_loop_step:
  "is_recording s \<Longrightarrow> (case e of None \<Rightarrow> True | Some x \<Rightarrow> now t < x) \<Longrightarrow>
   gui_recording_loop cfg dir e (t # ts) s =
     (if fst (gui_recording_pass cfg t dir s)
      then Some (ExceptionRaised, snd (gui_recording_pass cfg t dir s))
      else gui_recording_loop cfg dir e ts (snd (gui_recording_pass cfg t dir s)))"
  by (cases "gui_recording_pass cfg t dir s") (auto split: bool.split)


section \<open>C1: frame numbers of the saved files\<close>

text \<open>
  In the graphical front-end the counter is incremented right after a successful
  write, so the saved frame numbers are \<open>0, 1, 2, \<dots>\<close> without a gap or a repeat.
  The same holds for the command-line loop when no preview call raises.
\<close>

lemma gui_pass_saved_numbers:
  "saved_numbers s = [0..<frame_count s] \<Longrightarrow>
   saved_numbers (snd (gui_recording_pass cfg t dir s))
     = [0..<frame_count (snd (gui_recording_pass cfg t dir s))]"
  by (simp add: saved_numbers_def gui_pass_saved gui_pass_count)

lemma gui_loop_saved_numbers:
  "saved_numbers s = [0..<frame_count s] \<Longrightarrow>
   gui_recording_loop cfg dir e ts s = Some (r, s') \<Longrightarrow>
   saved_numbers s' = [0..<frame_count s']"
proof (induction ts arbitrary: s)
  case Nil
  then show ?case by (simp split: if_splits)
next
  case (Cons t ts)
  show ?case
  proof (cases "is_recording s \<and> (case e of None \<Rightarrow> True | Some x \<Rightarrow> now t < x)")
    case False
    with Cons.prems show ?thesis by (auto split: if_splits)
  next
    case True
    then have step: "gui_recording_loop cfg dir e (t # ts) s =
        (if fst (gui_recording_pass cfg t dir s)
         then Some (ExceptionRaised, snd (gui_recording_pass cfg t dir s))
         else gui_recording_loop cfg dir e ts (snd (gui_recording_pass cfg t dir s)))"
      by (simp only: gui_loop_step)
    show ?thesis
    proof (cases "fst (gui_recording_pass cfg t dir s)")
      case True
      with step Cons.prems(2) have "s' = snd (gui_recording_pass cfg t dir s)" by simp
      with Cons.prems(1) show ?thesis by (simp only: gui_pass_saved_numbers)
    next
      case False
      with step Cons.prems(2)
      have "gui_recording_loop cfg dir e ts (snd (gui_recording_pass cfg t dir s)) = Some (r, s')"
        by simp
      with Cons.IH [OF gui_pass_saved_numbers [OF Cons.prems(1)]] show ?thesis by blast
    qed
  qed
qed

lemma recording_pass_saved_numbers:
  "saved_numbers s = [0..<frame_count s] \<Longrightarrow>
   preview_window cfg \<longrightarrow> preview_res t \<noteq> PreviewRaises \<Longrightarrow>
   saved_numbers (snd (recording_pass cfg t dir s))
     = [0..<frame_count (snd (recording_pass cfg t dir s))]"
  by (simp add: saved_numbers_def recording_pass_saved recording_pass_count)

lemma recording_loop_saved_numbers:
  "saved_numbers s = [0..<frame_count s] \<Longrightarrow>
   \<forall>t\<in>set ts. preview_window cfg \<longrightarrow> preview_res t \<noteq> PreviewRaises \<Longrightarrow>
   recording_loop cfg dir e ts s = Some (r, s') \<Longrightarrow>
   saved_numbers s' = [0..<frame_count s']"
proof (induction ts arbitrary: s)
  case Nil
  then show ?case by (simp split: if_splits)
next
  case (Cons t ts)
  show ?case
  proof (cases "is_recording s \<and> now t < e")
    case False
    with Cons.prems show ?thesis by (auto split: if_splits)
  next
    case True
    then have step: "recording_loop cfg dir e (t # ts) s =
        (if sleep_raises (interval_seconds cfg) then Some (ExceptionRaised, snd (recording_pass cfg t dir s))
         else recording_loop cfg dir e ts (snd (recording_pass cfg t dir s)))"
      by (simp only: recording_loop_step)
    from Cons.prems(1,2) have inv:
      "saved_numbers (snd (recording_pass cfg t dir s))
         = [0..<frame_count (snd (recording_pass cfg t dir s))]"
      by (intro recording_pass_saved_numbers) simp_all
    show ?thesis
    proof (cases "sleep_raises (interval_seconds cfg)")
      case True
      with step Cons.prems(3) have "s' = snd (recording_pass cfg t dir s)" by simp
      with inv show ?thesis by simp
    next
      case False
      with step Cons.prems(3)
      have "recording_loop cfg dir e ts (snd (recording_pass cfg t dir s)) = Some (r, s')"
        by simp
      with Cons.IH [OF inv] Cons.prems(2) show ?thesis by simp
    qed
  qed
qed

text \<open>
  C1 says that the counter is incremented exactly when a save succeeds, so that no two
  saved files share a frame number and each later one has a larger number. In the
  command-line program \<^verbatim>\<open>capture_frame\<close> returns \<^verbatim>\<open>False\<close> when a preview call
  raises after the image was written: the counter stays, and the next image is written
  under the same number, over the first. In the session below two images are saved,
  both as frame 0, and the counter ends at 1.
\<close>

theorem preview_failure_repeats_frame_number:
  "map_option (\<lambda>(r, s). (r, saved_numbers s, frame_count s))
     (start_recording load_default_config headless_env)
   = Some (ReturnedTrue, [0, 0], 1)"
  by code_simp

section \<open>C3: cancellation\<close>




section \<open>C2: how a capture loop ends\<close>







section \<open>C8: when the video is assembled\<close>

text \<open>
  Neither loop assembles a video by itself, and both front-ends decide after the loop.
\<close>

lemma recording_loop_video_call:
  "recording_loop cfg dir e ts s = Some (r, s') \<Longrightarrow>
   (CreateVideo \<in> set (calls s')) = (CreateVideo \<in> set (calls s))"
proof (induction ts arbitrary: s)
  case Nil
  then show ?case by (simp split: if_splits)
next
  case (Cons t ts)
  show ?case
  proof (cases "is_recording s \<and> now t < e")
    case False
    with Cons.prems show ?thesis by (auto split: if_splits)
  next
    case True
    then have step: "recording_loop cfg dir e (t # ts) s =
        (if sleep_raises (interval_seconds cfg) then Some (ExceptionRaised, snd (recording_pass cfg t dir s))
         else recording_loop cfg dir e ts (snd (recording_pass cfg t dir s)))"
      by (simp only: recording_loop_step)
    have pass: "(CreateVideo \<in> set (calls (snd (recording_pass cfg t dir s))))
        = (CreateVideo \<in> set (calls s))"
      by (simp add: recording_pass_calls)
    show ?thesis
    proof (cases "sleep_raises (interval_seconds cfg)")
      case True
      with step Cons.prems have "s' = snd (recording_pass cfg t dir s)" by simp
      with pass show ?thesis by simp
    next
      case False
      with step Cons.prems
      have "recording_loop cfg dir e ts (snd (recording_pass cfg t dir s)) = Some (r, s')"
        by simp
      from Cons.IH [OF this] pass show ?thesis by simp
    qed
  qed
qed

lemma gui_loop_video_call:
  "gui_recording_loop cfg dir ge ts s = Some (r, s') \<Longrightarrow>
   (CreateVideo \<in> set (calls s')) = (CreateVideo \<in> set (calls s))"
proof (induction ts arbitrary: s)
  case Nil
  then show ?case by (simp split: if_splits)
next
  case (Cons t ts)
  show ?case
  proof (cases "is_recording s \<and> (case ge of None \<Rightarrow> True | Some x \<Rightarrow> now t < x)")
    case False
    with Cons.prems show ?thesis by (auto split: if_splits)
  next
    case True
    then have step: "gui_recording_loop cfg dir ge (t # ts) s =
        (if fst (gui_recording_pass cfg t dir s)
         then Some (ExceptionRaised, snd (gui_recording_pass cfg t dir s))
         else gui_recording_loop cfg dir ge ts (snd (gui_recording_pass cfg t dir s)))"
      by (simp only: gui_loop_step)
    have pass: "(CreateVideo \<in> set (calls (snd (gui_recording_pass cfg t dir s))))
        = (CreateVideo \<in> set (calls s))"
      by (simp add: gui_pass_calls gui_capture_calls)
    show ?thesis
    proof (cases "fst (gui_recording_pass cfg t dir s)")
      case True
      with step Cons.prems have "s' = snd (gui_recording_pass cfg t dir s)" by simp
      with pass show ?thesis by simp
    next
      case False
      with step Cons.prems
      have "gui_recording_loop cfg dir ge ts (snd (gui_recording_pass cfg t dir s)) = Some (r, s')"
        by simp
      from Cons.IH [OF this] pass show ?thesis by simp
    qed
  qed
qed

lemma initialize_camera_video_call:
  "CreateVideo \<notin> set (calls (snd (initialize_camera cfg opens initial_recorder)))"
  by (simp add: initialize_camera_def initial_recorder_def)

lemma start_recording_not_opened:
  "\<not> camera_opens env \<Longrightarrow>
   start_recording cfg env = Some (ReturnedFalse, initial_recorder\<lparr>calls := [OpenDevice]\<rparr>)"
  by (simp add: start_recording_def initialize_camera_def initial_recorder_def)

lemma start_recording_opened:
  assumes "camera_opens env"
  shows "start_recording cfg env =
     (if interval_seconds cfg = Num 0
      then Some (Raised,
        (save_config (config_save_fails env) (snd (initialize_camera cfg True initial_recorder)))
          \<lparr>is_recording := True, frame_count := 0\<rparr>)
      else
        (case end_time_of (start_time env) (duration_minutes cfg) of
           None \<Rightarrow>
             Some (Raised,
               (save_config (config_save_fails env)
                  (snd (initialize_camera cfg True initial_recorder)))
                \<lparr>is_recording := True, frame_count := 0\<rparr>\<lparr>is_recording := False\<rparr>)
         | Some end_time \<Rightarrow>
             (case recording_loop cfg (session_directory cfg (dir_clock env)) end_time
                     (ticks env)
                     ((save_config (config_save_fails env)
                         (snd (initialize_camera cfg True initial_recorder)))
                       \<lparr>is_recording := True, frame_count := 0\<rparr>) of
                None \<Rightarrow> None
              | Some (ExceptionRaised, s2) \<Rightarrow> Some (Raised, s2\<lparr>is_recording := False\<rparr>)
              | Some (r, s2) \<Rightarrow>
                  Some (ReturnedTrue,
                    (if create_video cfg \<and> 0 < frame_count s2
                     then s2\<lparr>calls := calls s2 @ [CreateVideo]\<rparr> else s2)
                    \<lparr>is_recording := False\<rparr>))))"
proof -
  define s0 where "s0 = snd (initialize_camera cfg True initial_recorder)"
  have i: "initialize_camera cfg (camera_opens env) initial_recorder = (True, s0)"
    using assms by (simp add: s0_def initialize_camera_def)
  show ?thesis
    unfolding start_recording_def i s0_def [symmetric] by (simp add: Let_def)
qed

text \<open>
  A session that came to its loop: the loop ran from the recorder the set-up left,
  and the exit of the loop decides what \<^verbatim>\<open>start_recording\<close> does.
\<close>

lemma start_recording_loop:
  assumes "camera_opens env" and "start_recording cfg env = Some (r, s)"
    and "interval_seconds cfg \<noteq> Num 0"
    and "end_time_of (start_time env) (duration_minutes cfg) = Some e"
  obtains r2 s2 where
    "recording_loop cfg (session_directory cfg (dir_clock env)) e (ticks env)
       ((save_config (config_save_fails env) (snd (initialize_camera cfg True initial_recorder)))
          \<lparr>is_recording := True, frame_count := 0\<rparr>) = Some (r2, s2)"
    and "r2 = ExceptionRaised \<Longrightarrow> r = Raised \<and> s = s2\<lparr>is_recording := False\<rparr>"
    and "r2 \<noteq> ExceptionRaised \<Longrightarrow> r = ReturnedTrue
           \<and> s = (if create_video cfg \<and> 0 < frame_count s2
                  then s2\<lparr>calls := calls s2 @ [CreateVideo]\<rparr> else s2)\<lparr>is_recording := False\<rparr>"
proof -
  let ?loop = "recording_loop cfg (session_directory cfg (dir_clock env)) e (ticks env)
       ((save_config (config_save_fails env) (snd (initialize_camera cfg True initial_recorder)))
          \<lparr>is_recording := True, frame_count := 0\<rparr>)"
  from assms have run:
    "(case ?loop of None \<Rightarrow> None
      | Some (ExceptionRaised, s2) \<Rightarrow> Some (Raised, s2\<lparr>is_recording := False\<rparr>)
      | Some (r, s2) \<Rightarrow>
          Some (ReturnedTrue,
            (if create_video cfg \<and> 0 < frame_count s2
             then s2\<lparr>calls := calls s2 @ [CreateVideo]\<rparr> else s2)
            \<lparr>is_recording := False\<rparr>)) = Some (r, s)"
    by (simp add: start_recording_opened)
  then obtain r2 s2 where loop: "?loop = Some (r2, s2)"
    by (cases ?loop) auto
  show thesis
  proof (rule that [OF loop])
    assume "r2 = ExceptionRaised"
    with run loop show "r = Raised \<and> s = s2\<lparr>is_recording := False\<rparr>" by auto
  next
    assume "r2 \<noteq> ExceptionRaised"
    with run loop show "r = ReturnedTrue
           \<and> s = (if create_video cfg \<and> 0 < frame_count s2
                  then s2\<lparr>calls := calls s2 @ [CreateVideo]\<rparr> else s2)\<lparr>is_recording := False\<rparr>"
      by (cases r2; auto)
  qed
qed

text \<open>A session that did not come to its loop: the recorder is as the set-up left it.\<close>

lemma start_recording_no_loop:
  assumes "camera_opens env" and "start_recording cfg env = Some (r, s)"
    and "interval_seconds cfg = Num 0 \<or> end_time_of (start_time env) (duration_minutes cfg) = None"
  shows "r = Raised"
    and "\<exists>b. s = (save_config (config_save_fails env)
                   (snd (initialize_camera cfg True initial_recorder)))
                 \<lparr>is_recording := b, frame_count := 0\<rparr>"
proof -
  let ?s1 = "(save_config (config_save_fails env)
                   (snd (initialize_camera cfg True initial_recorder)))"
  have e: "?s1\<lparr>is_recording := True, frame_count := 0\<rparr>\<lparr>is_recording := False\<rparr>
      = ?s1\<lparr>is_recording := False, frame_count := 0\<rparr>"
    by simp
  from assms have "r = Raised \<and> (s = ?s1\<lparr>is_recording := True, frame_count := 0\<rparr>
      \<or> s = ?s1\<lparr>is_recording := False, frame_count := 0\<rparr>)"
    unfolding e [symmetric] by (auto simp add: start_recording_opened split: if_splits)
  then show "r = Raised"
    and "\<exists>b. s = ?s1\<lparr>is_recording := b, frame_count := 0\<rparr>"
    by auto
qed

lemma start_recording_video_call:
  assumes "start_recording cfg env = Some (r, s)"
  shows "(CreateVideo \<in> set (calls s)) = (r = ReturnedTrue \<and> create_video cfg \<and> 0 < frame_count s)"
proof (cases "camera_opens env")
  case False
  with assms show ?thesis
    by (auto simp add: start_recording_not_opened initial_recorder_def)
next
  case True
  define s1 where "s1 = (save_config (config_save_fails env)
      (snd (initialize_camera cfg True initial_recorder)))\<lparr>is_recording := True, frame_count := 0\<rparr>"
  have s1: "CreateVideo \<notin> set (calls s1)"
    using initialize_camera_video_call [of cfg True]
    by (simp add: s1_def save_config_def)
  show ?thesis
  proof (cases "interval_seconds cfg = Num 0
      \<or> end_time_of (start_time env) (duration_minutes cfg) = None")
    case z: True
    from start_recording_no_loop [OF True assms z] obtain b where "r = Raised"
      and "s = (save_config (config_save_fails env)
                   (snd (initialize_camera cfg True initial_recorder)))
                 \<lparr>is_recording := b, frame_count := 0\<rparr>"
      by blast
    with s1 show ?thesis by (simp add: s1_def)
  next
    case nz: False
    then obtain e where e: "end_time_of (start_time env) (duration_minutes cfg) = Some e"
      and i: "interval_seconds cfg \<noteq> Num 0"
      by auto
    from start_recording_loop [OF True assms i e] obtain r2 s2 where
      loop: "recording_loop cfg (session_directory cfg (dir_clock env)) e (ticks env) s1
         = Some (r2, s2)"
      and ex: "r2 = ExceptionRaised \<Longrightarrow> r = Raised \<and> s = s2\<lparr>is_recording := False\<rparr>"
      and ok: "r2 \<noteq> ExceptionRaised \<Longrightarrow> r = ReturnedTrue
           \<and> s = (if create_video cfg \<and> 0 < frame_count s2
                  then s2\<lparr>calls := calls s2 @ [CreateVideo]\<rparr> else s2)\<lparr>is_recording := False\<rparr>"
      unfolding s1_def by blast
    from recording_loop_video_call [OF loop] s1 have s2: "CreateVideo \<notin> set (calls s2)"
      by simp
    show ?thesis
    proof (cases "r2 = ExceptionRaised")
      case True
      with ex s2 show ?thesis by simp
    next
      case False
      with ok s2 show ?thesis by auto
    qed
  qed
qed

lemma recording_worker_video_call:
  assumes "recording_worker cfg env = Some (handled, s)"
  shows "(CreateVideo \<in> set (calls s)) = (\<not> handled \<and> create_video cfg \<and> 0 < frame_count s)"
proof (cases "camera_opens env \<and> \<not> config_save_fails env")
  case False
  with assms show ?thesis
    by (auto simp add: recording_worker_def gui_setup_camera_def initial_recorder_def Let_def
        split: if_splits)
next
  case True
  define s1 where "s1 = (gui_setup_camera cfg initial_recorder)
      \<lparr>config_json := True, is_recording := True, frame_count := 0\<rparr>"
  have s1: "CreateVideo \<notin> set (calls s1)"
    by (simp add: s1_def gui_setup_camera_def initial_recorder_def)
  show ?thesis
  proof (cases "gui_end_time cfg (start_time env)")
    case (Inl u)
    with True assms have "handled" and "s = s1\<lparr>is_recording := False\<rparr>"
      by (auto simp add: recording_worker_def s1_def Let_def)
    with s1 show ?thesis by simp
  next
    case (Inr ge)
    let ?loop = "gui_recording_loop cfg (session_directory cfg (dir_clock env)) ge (ticks env) s1"
    from True assms Inr have run:
      "(case ?loop of None \<Rightarrow> None
        | Some (ExceptionRaised, s2) \<Rightarrow> Some (True, s2\<lparr>is_recording := False\<rparr>)
        | Some (r, s2) \<Rightarrow>
            Some (False,
              (if create_video cfg \<and> 0 < frame_count s2
               then s2\<lparr>calls := calls s2 @ [CreateVideo]\<rparr> else s2)
              \<lparr>is_recording := False\<rparr>)) = Some (handled, s)"
      by (simp add: recording_worker_def s1_def Let_def)
    then obtain r2 s2 where loop: "?loop = Some (r2, s2)"
      by (cases ?loop) auto
    from gui_loop_video_call [OF loop] s1 have s2: "CreateVideo \<notin> set (calls s2)"
      by simp
    show ?thesis
    proof (cases "r2 = ExceptionRaised")
      case True
      with run loop have "handled" and "s = s2\<lparr>is_recording := False\<rparr>" by auto
      with s2 show ?thesis by simp
    next
      case False
      with run loop have "\<not> handled"
        and "s = (if create_video cfg \<and> 0 < frame_count s2
               then s2\<lparr>calls := calls s2 @ [CreateVideo]\<rparr> else s2)\<lparr>is_recording := False\<rparr>"
        by (cases r2; auto)+
      with s2 show ?thesis by auto
    qed
  qed
qed

text \<open>
  C8 says that after the capture loop has ended the video is assembled if and only if
  the configuration asks for it and a frame was counted. When an exception ends the
  loop the assembly is skipped: below, the configuration asks for a video and one
  frame was counted, in the command-line program with a negative interval (the sleep
  raises after the first frame) and in the graphical worker with a camera read that
  raises in the second pass, and no video is assembled.
\<close>

theorem exception_skips_video_assembly:
  "create_video negative_interval_config
   \<and> map_option (\<lambda>(r, s). (r, frame_count s, CreateVideo \<in> set (calls s)))
       (start_recording negative_interval_config two_ticks_env)
     = Some (Raised, 1, False)
   \<and> create_video gui_default_config
   \<and> map_option (\<lambda>(h, s). (h, frame_count s, CreateVideo \<in> set (calls s)))
       (recording_worker gui_default_config read_raises_env)
     = Some (True, 1, False)"
  by code_simp

text \<open>
  C8 as amended: the video is assembled exactly when the session came to the end of
  its loop without an exception (\<^verbatim>\<open>start_recording\<close> returns \<^verbatim>\<open>True\<close>; the
  handler of the graphical worker did not run), the configuration asks for a video
  and a frame was counted.
\<close>

theorem video_assembly_after_loop:
  "(start_recording cfg env = Some (r, s) \<longrightarrow>
      (CreateVideo \<in> set (calls s))
        = (r = ReturnedTrue \<and> create_video cfg \<and> 0 < frame_count s))
   \<and> (recording_worker gcfg genv = Some (handled, gs) \<longrightarrow>
      (CreateVideo \<in> set (calls gs))
        = (\<not> handled \<and> create_video gcfg \<and> 0 < frame_count gs))"
  using start_recording_video_call [of cfg env r s]
    recording_worker_video_call [of gcfg genv handled gs]
  by blast

text \<open>The theorem at work: a session the time limit ends after one frame assembles
  its video, in both front-ends.\<close>

theorem video_assembly_after_loop_witness:
  "(\<exists>s. start_recording load_default_config late_env = Some (ReturnedTrue, s)
        \<and> frame_count s = 1 \<and> CreateVideo \<in> set (calls s))
   \<and> (\<exists>gs. recording_worker timed_gui_config late_env = Some (False, gs)
        \<and> frame_count gs = 1 \<and> CreateVideo \<in> set (calls gs))"
proof -
  have "map_option (\<lambda>(r, s). (r, frame_count s)) (start_recording load_default_config late_env)
      = Some (ReturnedTrue, 1)"
    by code_simp
  then obtain s where c: "start_recording load_default_config late_env = Some (ReturnedTrue, s)"
    and n: "frame_count s = 1"
    by auto
  have "map_option (\<lambda>(h, s). (h, frame_count s)) (recording_worker timed_gui_config late_env)
      = Some (False, 1)"
    by code_simp
  then obtain gs where g: "recording_worker timed_gui_config late_env = Some (False, gs)"
    and gn: "frame_count gs = 1"
    by auto
  have v: "create_video load_default_config" "create_video timed_gui_config"
    by (simp_all add: load_default_config_def timed_gui_config_def gui_default_config_def)
  note inst = video_assembly_after_loop
    [of load_default_config late_env ReturnedTrue s timed_gui_config late_env False gs]
  from inst c n v have "CreateVideo \<in> set (calls s)" by simp
  moreover from inst g gn v have "CreateVideo \<in> set (calls gs)" by simp
  ultimately show ?thesis using c n g gn by simp
qed

section \<open>C7: failures of reads and writes\<close>









section \<open>C5: the algorithm of the front-ends\<close>













lemma adjusted_session_follows_spec_algorithm:
  "map_option (\<lambda>(r, s). (r, spec_algorithm adjusted_config (calls s)))
       (start_recording adjusted_config late_env)
     = Some (ReturnedTrue, True)"
  by code_simp




section \<open>C6: names of the session directory and of the image files\<close>

text \<open>
  A number is printed in decimal digits, and padding to a width gives exactly that
  width as long as the number has no more digits. Every image a session saves lies
  in the directory of the session, under the name made from its frame number.
\<close>

lemma digit_char_digit: "d < 10 \<Longrightarrow> digit_char d \<in> set ''0123456789''"
  unfolding digit_char_def by (rule nth_mem) simp

lemma str_nat_digits: "set (str_nat n) \<subseteq> set ''0123456789''"
proof (induction n rule: str_nat.induct)
  case (1 n)
  show ?case
  proof (cases "n < 10")
    case True
    then have "str_nat n = [digit_char n]" by (subst str_nat.simps) simp
    with digit_char_digit [OF True] show ?thesis by simp
  next
    case False
    then have eq: "str_nat n = str_nat (n div 10) @ [digit_char (n mod 10)]"
      by (subst str_nat.simps) simp
    have "digit_char (n mod 10) \<in> set ''0123456789''"
      by (rule digit_char_digit) simp
    with 1 [OF False] show ?thesis unfolding eq by simp
  qed
qed

lemma length_str_nat_pos: "0 < length (str_nat n)"
  by (subst str_nat.simps) simp

lemma length_str_nat: "0 < k \<Longrightarrow> (length (str_nat n) \<le> k) = (n < 10 ^ k)"
proof (induction n arbitrary: k rule: str_nat.induct)
  case (1 n)
  show ?case
  proof (cases "n < 10")
    case True
    then have "str_nat n = [digit_char n]" by (subst str_nat.simps) simp
    moreover from 1(2) have "(10::nat) ^ 1 \<le> 10 ^ k"
      by (intro power_increasing) simp_all
    ultimately show ?thesis using True 1(2) by simp
  next
    case False
    then have eq: "str_nat n = str_nat (n div 10) @ [digit_char (n mod 10)]"
      by (subst str_nat.simps) simp
    show ?thesis
    proof (cases "k = 1")
      case True
      with False eq length_str_nat_pos [of "n div 10"] show ?thesis by simp
    next
      case k: False
      with 1(2) obtain j where j: "k = Suc j" and "0 < j" by (cases k) auto
      from 1(1) [OF False \<open>0 < j\<close>] have "(length (str_nat (n div 10)) \<le> j) = (n div 10 < 10 ^ j)" .
      moreover have "(n div 10 < 10 ^ j) = (n < 10 ^ Suc j)"
        by (simp add: div_less_iff_less_mult mult.commute)
      ultimately show ?thesis unfolding eq j by simp
    qed
  qed
qed

lemma length_zfill: "length (zfill w s) = max w (length s)"
  by (simp add: zfill_def)

lemma zfill_digits: "set s \<subseteq> set ''0123456789'' \<Longrightarrow> set (zfill w s) \<subseteq> set ''0123456789''"
  by (auto simp add: zfill_def)

lemma length_zfill_str_nat: "0 < w \<Longrightarrow> n < 10 ^ w \<Longrightarrow> length (zfill w (str_nat n)) = w"
  using length_str_nat [of w n] by (simp add: length_zfill)

lemma format_06d_length: "6 \<le> length (format_06d n)"
  "(length (format_06d n) = 6) = (n < 1000000)"
  using length_str_nat [of 6 n] by (auto simp add: format_06d_def length_zfill)

lemma format_06d_digits: "set (format_06d n) \<subseteq> set ''0123456789''"
  unfolding format_06d_def by (rule zfill_digits) (rule str_nat_digits)

lemma strftime_stamp_shape:
  assumes "valid_datetime d"
  shows "length (strftime_stamp d) = 15" and "strftime_stamp d ! 8 = CHR ''_''"
proof -
  from assms have l: "length (zfill 4 (str_nat (year d))) = 4"
    "length (zfill 2 (str_nat (month d))) = 2" "length (zfill 2 (str_nat (day d))) = 2"
    "length (zfill 2 (str_nat (hour d))) = 2" "length (zfill 2 (str_nat (minute d))) = 2"
    "length (zfill 2 (str_nat (second d))) = 2"
    by (simp_all add: valid_datetime_def length_zfill_str_nat)
  then show "length (strftime_stamp d) = 15"
    by (simp add: strftime_stamp_def)
  from l show "strftime_stamp d ! 8 = CHR ''_''"
    by (simp add: strftime_stamp_def nth_append)
qed

lemma path_join_plain:
  "a \<noteq> [] \<Longrightarrow> last a \<noteq> CHR ''/'' \<Longrightarrow> \<not> (b \<noteq> [] \<and> hd b = CHR ''/'') \<Longrightarrow>
   path_join a b = a @ ''/'' @ b"
  by (simp add: path_join_def)

lemma recording_loop_saved_paths:
  "recording_loop cfg dir e ts s = Some (r, s') \<Longrightarrow>
   \<forall>(k, p) \<in> set (saved s). p = path_join dir (frame_filename cfg k) \<Longrightarrow>
   \<forall>(k, p) \<in> set (saved s'). p = path_join dir (frame_filename cfg k)"
proof (induction ts arbitrary: s)
  case Nil
  then show ?case by (simp split: if_splits)
next
  case (Cons t ts)
  show ?case
  proof (cases "is_recording s \<and> now t < e")
    case False
    with Cons.prems show ?thesis by (auto split: if_splits)
  next
    case True
    let ?s1 = "snd (recording_pass cfg t dir s)"
    from True have step: "recording_loop cfg dir e (t # ts) s =
        (if sleep_raises (interval_seconds cfg) then Some (ExceptionRaised, ?s1)
         else recording_loop cfg dir e ts ?s1)"
      by (simp only: recording_loop_step)
    from Cons.prems(2) have inv: "\<forall>(k, p) \<in> set (saved ?s1). p = path_join dir (frame_filename cfg k)"
      by (auto simp add: recording_pass_saved)
    show ?thesis
    proof (cases "sleep_raises (interval_seconds cfg)")
      case True
      with step Cons.prems(1) have "s' = ?s1" by simp
      with inv show ?thesis by simp
    next
      case False
      with step Cons.prems(1) have "recording_loop cfg dir e ts ?s1 = Some (r, s')" by simp
      from Cons.IH [OF this inv] show ?thesis .
    qed
  qed
qed

lemma gui_loop_saved_paths:
  "gui_recording_loop cfg dir ge ts s = Some (r, s') \<Longrightarrow>
   \<forall>(k, p) \<in> set (saved s). p = path_join dir (frame_filename cfg k) \<Longrightarrow>
   \<forall>(k, p) \<in> set (saved s'). p = path_join dir (frame_filename cfg k)"
proof (induction ts arbitrary: s)
  case Nil
  then show ?case by (simp split: if_splits)
next
  case (Cons t ts)
  show ?case
  proof (cases "is_recording s \<and> (case ge of None \<Rightarrow> True | Some x \<Rightarrow> now t < x)")
    case False
    with Cons.prems show ?thesis by (auto split: if_splits)
  next
    case True
    let ?s1 = "snd (gui_recording_pass cfg t dir s)"
    from True have step: "gui_recording_loop cfg dir ge (t # ts) s =
        (if fst (gui_recording_pass cfg t dir s) then Some (ExceptionRaised, ?s1)
         else gui_recording_loop cfg dir ge ts ?s1)"
      by (simp only: gui_loop_step)
    from Cons.prems(2) have inv: "\<forall>(k, p) \<in> set (saved ?s1). p = path_join dir (frame_filename cfg k)"
      by (auto simp add: gui_pass_saved)
    show ?thesis
    proof (cases "fst (gui_recording_pass cfg t dir s)")
      case True
      with step Cons.prems(1) have "s' = ?s1" by simp
      with inv show ?thesis by simp
    next
      case False
      with step Cons.prems(1) have "gui_recording_loop cfg dir ge ts ?s1 = Some (r, s')" by simp
      from Cons.IH [OF this inv] show ?thesis .
    qed
  qed
qed

lemma start_recording_saved_paths:
  assumes "start_recording cfg env = Some (r, s)" and "(k, p) \<in> set (saved s)"
  shows "p = path_join (session_directory cfg (dir_clock env)) (frame_filename cfg k)"
proof (cases "camera_opens env")
  case False
  with assms show ?thesis
    by (auto simp add: start_recording_not_opened initial_recorder_def)
next
  case True
  define s1 where "s1 = (save_config (config_save_fails env)
      (snd (initialize_camera cfg True initial_recorder)))\<lparr>is_recording := True, frame_count := 0\<rparr>"
  have s1: "saved s1 = []"
    by (simp add: s1_def save_config_def initialize_camera_def initial_recorder_def)
  show ?thesis
  proof (cases "interval_seconds cfg = Num 0
      \<or> end_time_of (start_time env) (duration_minutes cfg) = None")
    case z: True
    from start_recording_no_loop(2) [OF True assms(1) z] obtain b where
      "s = (save_config (config_save_fails env)
                   (snd (initialize_camera cfg True initial_recorder)))
                 \<lparr>is_recording := b, frame_count := 0\<rparr>"
      by blast
    with s1 have "saved s = []" by (simp add: s1_def)
    with assms(2) show ?thesis by simp
  next
    case nz: False
    then obtain e where e: "end_time_of (start_time env) (duration_minutes cfg) = Some e"
      and i: "interval_seconds cfg \<noteq> Num 0"
      by auto
    from start_recording_loop [OF True assms(1) i e] obtain r2 s2 where
      loop: "recording_loop cfg (session_directory cfg (dir_clock env)) e (ticks env) s1
         = Some (r2, s2)"
      and ex: "r2 = ExceptionRaised \<Longrightarrow> r = Raised \<and> s = s2\<lparr>is_recording := False\<rparr>"
      and ok: "r2 \<noteq> ExceptionRaised \<Longrightarrow> r = ReturnedTrue
           \<and> s = (if create_video cfg \<and> 0 < frame_count s2
                  then s2\<lparr>calls := calls s2 @ [CreateVideo]\<rparr> else s2)\<lparr>is_recording := False\<rparr>"
      unfolding s1_def by blast
    from ex ok have "saved s = saved s2"
      by (cases "r2 = ExceptionRaised") auto
    moreover from recording_loop_saved_paths [OF loop] s1
    have "\<forall>(k, p) \<in> set (saved s2).
        p = path_join (session_directory cfg (dir_clock env)) (frame_filename cfg k)"
      by simp
    ultimately show ?thesis using assms(2) by auto
  qed
qed

lemma recording_worker_saved_paths:
  assumes "recording_worker cfg env = Some (h, s)" and "(k, p) \<in> set (saved s)"
  shows "p = path_join (session_directory cfg (dir_clock env)) (frame_filename cfg k)"
proof (cases "camera_opens env \<and> \<not> config_save_fails env")
  case False
  with assms show ?thesis
    by (auto simp add: recording_worker_def gui_setup_camera_def initial_recorder_def Let_def
        split: if_splits)
next
  case True
  define s1 where "s1 = (gui_setup_camera cfg initial_recorder)
      \<lparr>config_json := True, is_recording := True, frame_count := 0\<rparr>"
  have s1: "saved s1 = []"
    by (simp add: s1_def gui_setup_camera_def initial_recorder_def)
  show ?thesis
  proof (cases "gui_end_time cfg (start_time env)")
    case (Inl u)
    with True assms(1) have "s = s1\<lparr>is_recording := False\<rparr>"
      by (auto simp add: recording_worker_def s1_def Let_def)
    with s1 assms(2) show ?thesis by simp
  next
    case (Inr ge)
    let ?loop = "gui_recording_loop cfg (session_directory cfg (dir_clock env)) ge (ticks env) s1"
    from True assms(1) Inr have run:
      "(case ?loop of None \<Rightarrow> None
        | Some (ExceptionRaised, s2) \<Rightarrow> Some (True, s2\<lparr>is_recording := False\<rparr>)
        | Some (r, s2) \<Rightarrow>
            Some (False,
              (if create_video cfg \<and> 0 < frame_count s2
               then s2\<lparr>calls := calls s2 @ [CreateVideo]\<rparr> else s2)
              \<lparr>is_recording := False\<rparr>)) = Some (h, s)"
      by (simp add: recording_worker_def s1_def Let_def)
    then obtain r2 s2 where loop: "?loop = Some (r2, s2)"
      by (cases ?loop) auto
    from run loop have "saved s = saved s2"
      by (cases r2) (auto split: if_splits)
    moreover from gui_loop_saved_paths [OF loop] s1
    have "\<forall>(k, p) \<in> set (saved s2).
        p = path_join (session_directory cfg (dir_clock env)) (frame_filename cfg k)"
      by simp
    ultimately show ?thesis using assms(2) by auto
  qed
qed

lemma str_nat_million: "str_nat 1000000 = ''1000000''"
  by (simp add: str_nat.simps digit_char_def)

text \<open>
  C6 says that each session writes into a fresh directory named after the prefix and
  the time stamp, and that each image file carries a 6-digit frame number. The
  directory is made with \<^verbatim>\<open>exist_ok=True\<close>: a second session that starts in the
  same second with the same prefix gets the directory of the first, which exists
  already. The format \<^verbatim>\<open>:06d\<close> is a minimum width: frame 1000000 is written with
  seven digits.
\<close>

theorem directory_reused_and_seven_digit_frame:
  "fst (create_output_directory load_default_config noon
          (snd (create_output_directory load_default_config noon {})))
     \<in> snd (create_output_directory load_default_config noon {})
   \<and> frame_filename load_default_config 1000000 = ''timelapse_1000000.jpg''
   \<and> length (format_06d 1000000) = 7"
  by (simp add: create_output_directory_def frame_filename_def format_06d_def zfill_def
      str_nat_million load_default_config_def)

text \<open>
  C6 as amended: every image a session of the command-line or the graphical front-end
  saves has the path joined from the session directory and the name made of the
  prefix, an underscore, the frame number, a dot and the image format; the session
  directory is the path joined from the output directory and the prefix, an
  underscore and the time stamp, and it is created if it does not exist and taken as
  it is if it does; the time stamp of a date with a four-digit year has 15 characters
  with an underscore after the eighth; the frame number is printed in decimal digits,
  at least six of them, and exactly six as long as it is below 1000000.
\<close>

theorem session_file_layout:
  "(start_recording cfg env = Some (r, s) \<and> (k, p) \<in> set (saved s) \<longrightarrow>
      p = path_join (session_directory cfg (dir_clock env))
            (filename_prefix cfg @ ''_'' @ format_06d k @ ''.'' @ image_format cfg))
   \<and> (recording_worker gcfg genv = Some (h, gs) \<and> (gk, gp) \<in> set (saved gs) \<longrightarrow>
      gp = path_join (session_directory gcfg (dir_clock genv))
             (filename_prefix gcfg @ ''_'' @ format_06d gk @ ''.'' @ image_format gcfg))
   \<and> create_output_directory cfg clock dirs
       = (path_join (output_dir cfg) (filename_prefix cfg @ ''_'' @ strftime_stamp clock),
          insert (session_directory cfg clock) dirs)
   \<and> (output_dir cfg \<noteq> [] \<and> last (output_dir cfg) \<noteq> CHR ''/''
        \<and> (filename_prefix cfg = [] \<or> hd (filename_prefix cfg) \<noteq> CHR ''/'') \<longrightarrow>
      session_directory cfg clock
        = output_dir cfg @ ''/'' @ filename_prefix cfg @ ''_'' @ strftime_stamp clock)
   \<and> (valid_datetime clock \<longrightarrow>
        length (strftime_stamp clock) = 15 \<and> strftime_stamp clock ! 8 = CHR ''_'')
   \<and> 6 \<le> length (format_06d n)
   \<and> (length (format_06d n) = 6) = (n < 1000000)
   \<and> set (format_06d n) \<subseteq> set ''0123456789''"
proof (intro conjI impI)
  assume "start_recording cfg env = Some (r, s) \<and> (k, p) \<in> set (saved s)"
  then show "p = path_join (session_directory cfg (dir_clock env))
            (filename_prefix cfg @ ''_'' @ format_06d k @ ''.'' @ image_format cfg)"
    using start_recording_saved_paths [of cfg env r s k p] by (simp add: frame_filename_def)
next
  assume "recording_worker gcfg genv = Some (h, gs) \<and> (gk, gp) \<in> set (saved gs)"
  then show "gp = path_join (session_directory gcfg (dir_clock genv))
             (filename_prefix gcfg @ ''_'' @ format_06d gk @ ''.'' @ image_format gcfg)"
    using recording_worker_saved_paths [of gcfg genv h gs gk gp] by (simp add: frame_filename_def)
next
  show "create_output_directory cfg clock dirs
       = (path_join (output_dir cfg) (filename_prefix cfg @ ''_'' @ strftime_stamp clock),
          insert (session_directory cfg clock) dirs)"
    by (simp add: create_output_directory_def session_directory_def)
next
  assume "output_dir cfg \<noteq> [] \<and> last (output_dir cfg) \<noteq> CHR ''/''
        \<and> (filename_prefix cfg = [] \<or> hd (filename_prefix cfg) \<noteq> CHR ''/'')"
  then show "session_directory cfg clock
        = output_dir cfg @ ''/'' @ filename_prefix cfg @ ''_'' @ strftime_stamp clock"
    unfolding session_directory_def by (intro path_join_plain) (auto simp add: hd_append)
next
  assume "valid_datetime clock"
  then show "length (strftime_stamp clock) = 15" and "strftime_stamp clock ! 8 = CHR ''_''"
    by (rule strftime_stamp_shape)+
next
  show "6 \<le> length (format_06d n)" by (rule format_06d_length)
  show "(length (format_06d n) = 6) = (n < 1000000)" by (rule format_06d_length)
  show "set (format_06d n) \<subseteq> set ''0123456789''" by (rule format_06d_digits)
qed

text \<open>The theorem at work, on a session that saves one frame at noon of 20 January
  2025.\<close>

theorem session_file_layout_witness:
  "(\<exists>s. start_recording load_default_config late_env = Some (ReturnedTrue, s)
        \<and> saved s
            = [(0, ''./timelapse_output/timelapse_20250120_120000/timelapse_000000.jpg'')]
        \<and> ''./timelapse_output/timelapse_20250120_120000/timelapse_000000.jpg''
            = path_join (session_directory load_default_config noon)
                (''timelapse'' @ ''_'' @ format_06d 0 @ ''.'' @ ''jpg''))
   \<and> (\<exists>gs. recording_worker timed_gui_config late_env = Some (False, gs)
        \<and> saved gs
            = [(0, ''./timelapse_output/timelapse_20250120_120000/timelapse_000000.jpg'')]
        \<and> ''./timelapse_output/timelapse_20250120_120000/timelapse_000000.jpg''
            = path_join (session_directory timed_gui_config noon)
                (''timelapse'' @ ''_'' @ format_06d 0 @ ''.'' @ ''jpg''))
   \<and> session_directory load_default_config noon
       = ''./timelapse_output'' @ ''/'' @ ''timelapse'' @ ''_'' @ strftime_stamp noon
   \<and> length (strftime_stamp noon) = 15
   \<and> length (format_06d 42) = 6"
proof -
  let ?p = "''./timelapse_output/timelapse_20250120_120000/timelapse_000000.jpg''"
  have "map_option (\<lambda>(r, s). (r, saved s)) (start_recording load_default_config late_env)
      = Some (ReturnedTrue, [(0, ?p)])"
    by code_simp
  then obtain s where c: "start_recording load_default_config late_env = Some (ReturnedTrue, s)"
    and cs: "saved s = [(0, ?p)]"
    by auto
  have "map_option (\<lambda>(h, s). (h, saved s)) (recording_worker timed_gui_config late_env)
      = Some (False, [(0, ?p)])"
    by code_simp
  then obtain gs where g: "recording_worker timed_gui_config late_env = Some (False, gs)"
    and gs: "saved gs = [(0, ?p)]"
    by auto
  have f: "dir_clock late_env = noon" "filename_prefix load_default_config = ''timelapse''"
    "image_format load_default_config = ''jpg''" "filename_prefix timed_gui_config = ''timelapse''"
    "image_format timed_gui_config = ''jpg''" "output_dir load_default_config = ''./timelapse_output''"
    by (simp_all add: late_env_def two_ticks_env_def load_default_config_def
        timed_gui_config_def gui_default_config_def)
  have v: "valid_datetime noon"
    by (simp add: valid_datetime_def noon_def)
  note inst = session_file_layout
    [where cfg = load_default_config and env = late_env and r = ReturnedTrue and s = s
       and k = 0 and p = ?p and gcfg = timed_gui_config and genv = late_env and h = False
       and gs = gs and gk = 0 and gp = ?p and clock = noon and n = 42]
  from inst c cs have 1: "?p = path_join (session_directory load_default_config noon)
      (''timelapse'' @ ''_'' @ format_06d 0 @ ''.'' @ ''jpg'')"
    by (simp add: f)
  from inst g gs have 2: "?p = path_join (session_directory timed_gui_config noon)
      (''timelapse'' @ ''_'' @ format_06d 0 @ ''.'' @ ''jpg'')"
    by (simp add: f)
  from inst have 3: "session_directory load_default_config noon
      = ''./timelapse_output'' @ ''/'' @ ''timelapse'' @ ''_'' @ strftime_stamp noon"
    by (simp add: f)
  from inst v have 4: "length (strftime_stamp noon) = 15" by simp
  from inst have 5: "length (format_06d 42) = 6" by simp
  from c cs 1 g gs 2 3 4 5 show ?thesis by blast
qed

section \<open>C4: the video assembly\<close>

text \<open>
  The enumerated files are the names with the image extension, in sorted order; the
  write loop hands over the files up to the first one that raises; a clean-up that
  ends without an exception has removed the enumerated files and nothing else. The
  assembly is one of five outcomes.
\<close>

lemma image_files_sorted: "sorted (image_files cfg names)"
  by (simp add: image_files_def)

lemma image_files_set:
  "set (image_files cfg names) = {f \<in> set names. endswith f (''.'' @ image_format cfg)}"
  by (auto simp add: image_files_def)

lemma image_files_distinct: "distinct names \<Longrightarrow> distinct (image_files cfg names)"
  by (simp add: image_files_def)

lemma write_frames_written:
  "fst (write_frames env dir fs) = takeWhile (\<lambda>f. \<not> write_raises env (path_join dir f)) fs"
  by (induction fs) (auto split: prod.splits)

lemma write_frames_raised:
  "snd (write_frames env dir fs) = (\<exists>f\<in>set fs. write_raises env (path_join dir f))"
  by (induction fs) (auto split: prod.splits)

lemma remove_files_done:
  "remove_files env dir fs names = (names', False) \<Longrightarrow>
   names' = filter (\<lambda>x. x \<notin> set fs) names"
proof (induction fs arbitrary: names)
  case Nil
  then show ?case by simp
next
  case (Cons f fs)
  then have "remove_files env dir fs (removeAll f names) = (names', False)"
    by (simp split: if_splits)
  from Cons.IH [OF this] show ?case
    by (simp add: removeAll_filter_not_eq) (metis)
qed

lemma remove_files_raised:
  "remove_files env dir fs names = (names', True) \<Longrightarrow> set names' \<subseteq> set names"
proof (induction fs arbitrary: names)
  case Nil
  then show ?case by simp
next
  case (Cons f fs)
  show ?case
  proof (cases "remove_raises env (path_join dir f) \<or> f \<notin> set names")
    case True
    with Cons.prems show ?thesis by auto
  next
    case False
    with Cons.prems have "remove_files env dir fs (removeAll f names) = (names', True)"
      by simp
    from Cons.IH [OF this] show ?thesis by auto
  qed
qed

lemma create_video_method_unfold:
  "create_video_method fe cfg env dir names =
     (let files = image_files cfg names;
          video = video_filename fe cfg;
          names1 = (if video \<in> set names then names else names @ [video]) in
      if files = [] then
        \<lparr> result = NoImages, written = [], writers = [], directory = names \<rparr>
      else if \<not> imread_ok env (path_join dir (hd files)) then
        \<lparr> result = VideoFailed, written = [], writers = [], directory = names \<rparr>
      else if \<exists>f\<in>set files. write_raises env (path_join dir f) then
        \<lparr> result = VideoFailed,
          written = takeWhile (\<lambda>f. \<not> write_raises env (path_join dir f)) files,
          writers = [path_join dir video], directory = names1 \<rparr>
      else if cleanup_images cfg then
        \<lparr> result = (if snd (remove_files env dir files names1) then VideoFailed
                     else VideoCreated),
          written = files, writers = [path_join dir video],
          directory = fst (remove_files env dir files names1) \<rparr>
      else
        \<lparr> result = VideoCreated, written = files, writers = [path_join dir video],
          directory = names1 \<rparr>)"
proof -
  let ?files = "image_files cfg names"
  obtain w raised where wf: "write_frames env dir ?files = (w, raised)"
    by (cases "write_frames env dir ?files")
  from wf write_frames_written [of env dir ?files]
  have w: "w = takeWhile (\<lambda>f. \<not> write_raises env (path_join dir f)) ?files" by simp
  from wf write_frames_raised [of env dir ?files]
  have r: "raised = (\<exists>f\<in>set ?files. write_raises env (path_join dir f))" by simp
  have full: "\<not> raised \<Longrightarrow> w = ?files"
    unfolding w r by (simp add: takeWhile_eq_all_conv)
  show ?thesis
  proof (cases raised)
    case True
    with wf w r show ?thesis
      by (simp add: create_video_method_def Let_def)
  next
    case False
    with wf full r show ?thesis
      by (cases "remove_files env dir ?files
            (if video_filename fe cfg \<in> set names then names
             else names @ [video_filename fe cfg])")
        (simp add: create_video_method_def Let_def)
  qed
qed

text \<open>
  C4: the assembly enumerates the names of the directory that end with the image
  extension, in sorted order (without a repeat, as the names of a directory are), and
  hands them to the writer in that order, up to the first one whose write raises; at
  most one video writer is opened. When the first image cannot be read, or a write
  raises, the handler ends the assembly: no further frame is written, none is
  written twice, and every name of the directory is still there, the images too even
  when the clean-up is switched on. When nothing raises, all enumerated files are
  written to the one writer.
\<close>

theorem video_assembly_sequential:
  "sorted (image_files cfg names)
   \<and> set (image_files cfg names) = {f \<in> set names. endswith f (''.'' @ image_format cfg)}
   \<and> (distinct names \<longrightarrow> distinct (image_files cfg names))
   \<and> written (create_video_method fe cfg env dir names)
       = (if image_files cfg names = []
             \<or> \<not> imread_ok env (path_join dir (hd (image_files cfg names)))
          then []
          else takeWhile (\<lambda>f. \<not> write_raises env (path_join dir f)) (image_files cfg names))
   \<and> length (writers (create_video_method fe cfg env dir names)) \<le> 1
   \<and> (image_files cfg names \<noteq> []
        \<and> \<not> imread_ok env (path_join dir (hd (image_files cfg names))) \<longrightarrow>
        result (create_video_method fe cfg env dir names) = VideoFailed
        \<and> writers (create_video_method fe cfg env dir names) = []
        \<and> directory (create_video_method fe cfg env dir names) = names)
   \<and> (imread_ok env (path_join dir (hd (image_files cfg names)))
        \<and> (\<exists>f\<in>set (image_files cfg names). write_raises env (path_join dir f)) \<longrightarrow>
        result (create_video_method fe cfg env dir names) = VideoFailed
        \<and> set names \<subseteq> set (directory (create_video_method fe cfg env dir names)))
   \<and> (image_files cfg names \<noteq> []
        \<and> imread_ok env (path_join dir (hd (image_files cfg names)))
        \<and> \<not> (\<exists>f\<in>set (image_files cfg names). write_raises env (path_join dir f)) \<longrightarrow>
        written (create_video_method fe cfg env dir names) = image_files cfg names
        \<and> writers (create_video_method fe cfg env dir names)
            = [path_join dir (video_filename fe cfg)])"
proof (intro conjI impI)
  show "sorted (image_files cfg names)" by (rule image_files_sorted)
  show "set (image_files cfg names) = {f \<in> set names. endswith f (''.'' @ image_format cfg)}"
    by (rule image_files_set)
  show "distinct (image_files cfg names)" if "distinct names"
    using that by (rule image_files_distinct)
  show "written (create_video_method fe cfg env dir names)
       = (if image_files cfg names = []
             \<or> \<not> imread_ok env (path_join dir (hd (image_files cfg names)))
          then []
          else takeWhile (\<lambda>f. \<not> write_raises env (path_join dir f)) (image_files cfg names))"
  proof (cases "\<exists>f\<in>set (image_files cfg names). write_raises env (path_join dir f)")
    case True
    then show ?thesis by (auto simp add: create_video_method_unfold Let_def)
  next
    case False
    then have tw: "takeWhile (\<lambda>f. \<not> write_raises env (path_join dir f)) (image_files cfg names)
        = image_files cfg names"
      by (simp add: takeWhile_eq_all_conv)
    from False show ?thesis
      by (simp add: create_video_method_unfold Let_def tw del: takeWhile_eq_all_conv)
  qed
  show "length (writers (create_video_method fe cfg env dir names)) \<le> 1"
    by (simp add: create_video_method_unfold Let_def)
next
  assume a: "image_files cfg names \<noteq> []
        \<and> \<not> imread_ok env (path_join dir (hd (image_files cfg names)))"
  then show "result (create_video_method fe cfg env dir names) = VideoFailed"
    and "writers (create_video_method fe cfg env dir names) = []"
    and "directory (create_video_method fe cfg env dir names) = names"
    by (simp_all add: create_video_method_unfold Let_def)
next
  assume a: "imread_ok env (path_join dir (hd (image_files cfg names)))
        \<and> (\<exists>f\<in>set (image_files cfg names). write_raises env (path_join dir f))"
  then have ne: "image_files cfg names \<noteq> []" by auto
  with a show "result (create_video_method fe cfg env dir names) = VideoFailed"
    by (simp add: create_video_method_unfold Let_def)
  from a ne show "set names \<subseteq> set (directory (create_video_method fe cfg env dir names))"
    by (auto simp add: create_video_method_unfold Let_def)
next
  assume a: "image_files cfg names \<noteq> []
        \<and> imread_ok env (path_join dir (hd (image_files cfg names)))
        \<and> \<not> (\<exists>f\<in>set (image_files cfg names). write_raises env (path_join dir f))"
  then show "written (create_video_method fe cfg env dir names) = image_files cfg names"
    and "writers (create_video_method fe cfg env dir names)
            = [path_join dir (video_filename fe cfg)]"
    by (simp_all add: create_video_method_unfold Let_def)
qed

text \<open>
  The theorem at work: three images are written in the order of their names, not in
  the order of the listing; with a second image whose write raises, only the first is
  written, the assembly fails, and the directory keeps its names.
\<close>

theorem video_assembly_sequential_witness:
  "written (create_video_method CommandLine cleanup_config good_video_env ''out'' session_names)
     = [''timelapse_000000.jpg'', ''timelapse_000001.jpg'', ''timelapse_000002.jpg'']
   \<and> writers (create_video_method CommandLine cleanup_config good_video_env ''out'' session_names)
     = [''out/timelapse_timelapse.mp4'']
   \<and> written (create_video_method CommandLine cleanup_config bad_frame_env ''out'' session_names)
     = [''timelapse_000000.jpg'']
   \<and> result (create_video_method CommandLine cleanup_config bad_frame_env ''out'' session_names)
     = VideoFailed
   \<and> set session_names
     \<subseteq> set (directory
         (create_video_method CommandLine cleanup_config bad_frame_env ''out'' session_names))"
proof -
  have f: "image_files cleanup_config session_names
      = [''timelapse_000000.jpg'', ''timelapse_000001.jpg'', ''timelapse_000002.jpg'']"
    by code_simp
  have v: "path_join ''out'' (video_filename CommandLine cleanup_config)
      = ''out/timelapse_timelapse.mp4''"
    by code_simp
  have g: "image_files cleanup_config session_names \<noteq> []
      \<and> imread_ok good_video_env
          (path_join ''out'' (hd (image_files cleanup_config session_names)))
      \<and> \<not> (\<exists>f\<in>set (image_files cleanup_config session_names).
            write_raises good_video_env (path_join ''out'' f))"
    by (simp add: f good_video_env_def)
  have b: "imread_ok bad_frame_env
          (path_join ''out'' (hd (image_files cleanup_config session_names)))
      \<and> (\<exists>f\<in>set (image_files cleanup_config session_names).
            write_raises bad_frame_env (path_join ''out'' f))"
    by (simp add: f bad_frame_env_def good_video_env_def path_join_def)
  have t: "takeWhile (\<lambda>f. \<not> write_raises bad_frame_env (path_join ''out'' f))
      [''timelapse_000000.jpg'', ''timelapse_000001.jpg'', ''timelapse_000002.jpg'']
      = [''timelapse_000000.jpg'']"
    by (simp add: bad_frame_env_def good_video_env_def path_join_def)
  note good = video_assembly_sequential
    [where cfg = cleanup_config and names = session_names and fe = CommandLine
       and env = good_video_env and dir = "''out''"]
  note bad = video_assembly_sequential
    [where cfg = cleanup_config and names = session_names and fe = CommandLine
       and env = bad_frame_env and dir = "''out''"]
  from good g have 1: "written
      (create_video_method CommandLine cleanup_config good_video_env ''out'' session_names)
      = image_files cleanup_config session_names"
    and 2: "writers
      (create_video_method CommandLine cleanup_config good_video_env ''out'' session_names)
      = [path_join ''out'' (video_filename CommandLine cleanup_config)]"
    by blast+
  from bad b have 3: "result
      (create_video_method CommandLine cleanup_config bad_frame_env ''out'' session_names)
      = VideoFailed"
    and 4: "set session_names \<subseteq> set (directory
      (create_video_method CommandLine cleanup_config bad_frame_env ''out'' session_names))"
    by blast+
  from bad b have 5: "written
      (create_video_method CommandLine cleanup_config bad_frame_env ''out'' session_names)
      = takeWhile (\<lambda>f. \<not> write_raises bad_frame_env (path_join ''out'' f))
          (image_files cleanup_config session_names)"
    by (simp add: f)
  from 5 have 6: "written
      (create_video_method CommandLine cleanup_config bad_frame_env ''out'' session_names)
      = [''timelapse_000000.jpg'']"
    unfolding f t .
  show ?thesis
    using 3 4 by (simp add: 1 2 6 f v)
qed

section \<open>C10: the clean-up after the assembly\<close>

text \<open>The saved configuration is enumerated only for the image format \<^verbatim>\<open>json\<close>.\<close>

lemma config_json_not_image:
  "endswith ''config.json'' (''.'' @ fmt) = (fmt = ''json'')"
proof
  assume "endswith ''config.json'' (''.'' @ fmt)"
  then have "length (''.'' @ fmt) \<le> length ''config.json''"
    and d: "drop (length ''config.json'' - length (''.'' @ fmt)) ''config.json'' = ''.'' @ fmt"
    by (simp_all only: endswith_def)
  then have l: "length fmt \<le> 10" by simp
  from l have "length fmt = 0 \<or> length fmt = 1 \<or> length fmt = 2 \<or> length fmt = 3
      \<or> length fmt = 4 \<or> length fmt = 5 \<or> length fmt = 6 \<or> length fmt = 7
      \<or> length fmt = 8 \<or> length fmt = 9 \<or> length fmt = 10"
    by arith
  then show "fmt = ''json''"
    using d by (elim disjE) simp_all
next
  assume "fmt = ''json''"
  then show "endswith ''config.json'' (''.'' @ fmt)"
    by (simp add: endswith_def)
qed

text \<open>
  C10: with the clean-up switched on and an assembly that ends without an exception,
  the directory holds afterwards its former names and the video file, less exactly
  the enumerated image files. In particular the video file is there when it did not
  exist before, and \<^verbatim>\<open>config.json\<close> is there when the image format is not
  \<^verbatim>\<open>json\<close>, for which the image writer has no encoder.
\<close>

theorem cleanup_removes_enumerated_images:
  "cleanup_images cfg \<and> result (create_video_method fe cfg env dir names) = VideoCreated \<longrightarrow>
     set (directory (create_video_method fe cfg env dir names))
       = (set names \<union> {video_filename fe cfg}) - set (image_files cfg names)
     \<and> (video_filename fe cfg \<notin> set names \<longrightarrow>
          video_filename fe cfg \<in> set (directory (create_video_method fe cfg env dir names)))
     \<and> (''config.json'' \<in> set names \<and> image_format cfg \<noteq> ''json'' \<longrightarrow>
          ''config.json'' \<in> set (directory (create_video_method fe cfg env dir names)))"
proof (intro impI)
  let ?files = "image_files cfg names"
  let ?video = "video_filename fe cfg"
  let ?names1 = "if ?video \<in> set names then names else names @ [?video]"
  let ?run = "create_video_method fe cfg env dir names"
  assume a: "cleanup_images cfg \<and> result ?run = VideoCreated"
  then have nr: "\<not> snd (remove_files env dir ?files ?names1)"
    and dir: "directory ?run = fst (remove_files env dir ?files ?names1)"
    by (auto simp add: create_video_method_unfold Let_def split: if_splits)
  from nr have "remove_files env dir ?files ?names1 = (directory ?run, False)"
    unfolding dir by (cases "remove_files env dir ?files ?names1") simp
  from remove_files_done [OF this]
  have d: "directory ?run = filter (\<lambda>x. x \<notin> set ?files) ?names1" .
  then have s: "set (directory ?run) = (set names \<union> {?video}) - set ?files"
    by auto
  have v: "?video \<notin> set names \<Longrightarrow> ?video \<in> set (directory ?run)"
    unfolding s by (auto simp add: image_files_set)
  have c: "''config.json'' \<in> set names \<and> image_format cfg \<noteq> ''json''
      \<Longrightarrow> ''config.json'' \<in> set (directory ?run)"
    unfolding s using config_json_not_image [of "image_format cfg"]
    by (auto simp add: image_files_set)
  from s v c show "set (directory ?run) = (set names \<union> {?video}) - set ?files
     \<and> (?video \<notin> set names \<longrightarrow> ?video \<in> set (directory ?run))
     \<and> (''config.json'' \<in> set names \<and> image_format cfg \<noteq> ''json'' \<longrightarrow>
          ''config.json'' \<in> set (directory ?run))"
    by blast
qed

text \<open>The theorem at work: of three images and the configuration, the configuration
  and the new video remain.\<close>

theorem cleanup_removes_enumerated_images_witness:
  "cleanup_images cleanup_config
   \<and> result (create_video_method Graphical cleanup_config good_video_env ''out'' session_names)
     = VideoCreated
   \<and> set (directory
        (create_video_method Graphical cleanup_config good_video_env ''out'' session_names))
     = {''config.json'', ''timelapse_timelapse.mp4''}"
proof -
  have c: "cleanup_images cleanup_config"
    by (simp add: cleanup_config_def)
  have r: "result (create_video_method Graphical cleanup_config good_video_env ''out''
      session_names) = VideoCreated"
    by code_simp
  have f: "image_files cleanup_config session_names
      = [''timelapse_000000.jpg'', ''timelapse_000001.jpg'', ''timelapse_000002.jpg'']"
    by code_simp
  have v: "video_filename Graphical cleanup_config = ''timelapse_timelapse.mp4''"
    by code_simp
  from cleanup_removes_enumerated_images
    [where cfg = cleanup_config and fe = Graphical and env = good_video_env
       and dir = "''out''" and names = session_names] c r
  have "set (directory
        (create_video_method Graphical cleanup_config good_video_env ''out'' session_names))
      = (set session_names \<union> {video_filename Graphical cleanup_config})
          - set (image_files cleanup_config session_names)"
    by blast
  also have "\<dots> = {''config.json'', ''timelapse_timelapse.mp4''}"
    unfolding f v by (auto simp add: session_names_def)
  finally show ?thesis using c r by simp
qed

end
